theory Spec2Isabelle
  imports Complex_Main
begin

section \<open>Role binding between tracked bodies and clinical roles\<close>

text \<open>
  A shallow embedding of \<^verbatim>\<open>binding_manager.py\<close> (class \<^verbatim>\<open>RoleBindingManager\<close>) and of the
  click-assignment block of the main loop of \<^verbatim>\<open>body_tracking.py\<close>.

  Python integers are unbounded: body ids, click coordinates, counters and squared
  distances are \<^typ>\<open>int\<close>. The methods mutate \<^verbatim>\<open>self\<close>; here each of them takes the manager
  and returns the manager after the call. Lines written to the console are not part of the
  state; what \<^verbatim>\<open>try_assign_from_click\<close> reports is kept as the outcome of the call.
\<close>

subsection \<open>Floating point values of the tracker\<close>

text \<open>
  Keypoint coordinates and scale factors are floating point numbers of NumPy and of the
  Python runtime. Their arithmetic is not code of this repository: the three operations
  the code applies to them are parameters of the model, over any type \<open>'f\<close> of floats.
  \<^item> \<open>isnan\<close> is \<^verbatim>\<open>np.isnan\<close>;
  \<^item> \<open>fmul\<close> is the product \<^verbatim>\<open>*\<close> of two floats;
  \<^item> \<open>to_int\<close> is \<^verbatim>\<open>int(...)\<close>, truncation towards zero, which raises
    \<^verbatim>\<open>OverflowError\<close> on an infinity and \<^verbatim>\<open>ValueError\<close> on a NaN.
\<close>

datatype py_error = OverflowError | ValueError

record 'f float_ops =
  isnan :: "'f \<Rightarrow> bool"
  fmul :: "'f \<Rightarrow> 'f \<Rightarrow> 'f"
  to_int :: "'f \<Rightarrow> py_error + int"

subsection \<open>Data model\<close>

text \<open>
  A tracked body of the ZED SDK, as far as the code reads it: \<^verbatim>\<open>body.id\<close> and
  \<^verbatim>\<open>body.keypoint_2d\<close>, which is \<^verbatim>\<open>None\<close> or an array of \<open>[x, y]\<close> rows.
\<close>

record 'f body =
  body_id :: int
  keypoint_2d :: "('f \<times> 'f) list option"

text \<open>The dataclass \<^verbatim>\<open>RoleBindingManager\<close>, field by field.\<close>

record 'f manager =
  image_scale :: "'f \<times> 'f"
  role_map :: "int \<rightharpoonup> string"
  current_role :: "string option"
  click_pending :: bool
  click_pos :: "int \<times> int"
  surgeon_count :: int
  assistant_count :: int
  nurse_count :: int
  role_color :: "string \<rightharpoonup> (int \<times> int \<times> int)"

text \<open>\<^verbatim>\<open>RoleBindingManager(image_scale)\<close>: every other field at its default.\<close>

definition new_manager :: "'f \<times> 'f \<Rightarrow> 'f manager" where
  "new_manager scale =
     \<lparr> image_scale = scale,
       role_map = Map.empty,
       current_role = None,
       click_pending = False,
       click_pos = (0, 0),
       surgeon_count = 0,
       assistant_count = 0,
       nurse_count = 0,
       role_color = [''Surgeon'' \<mapsto> (0, 0, 255),
                     ''Assistant'' \<mapsto> (255, 0, 0),
                     ''Nurse'' \<mapsto> (0, 255, 0)] \<rparr>"

subsection \<open>Role selection from the keyboard\<close>

text \<open>
  \<^verbatim>\<open>set_current_role_from_key\<close>: the four tests in the order of the source; the result is
  the returned status string (\<open>None\<close> for Python's \<^verbatim>\<open>None\<close>) and the manager after the call.
\<close>

definition set_current_role_from_key :: "'f manager \<Rightarrow> int \<Rightarrow> string option \<times> 'f manager" where
  "set_current_role_from_key s key =
     (if key = of_char CHR ''s'' then
        (Some ''[Role] Current role set to 'Surgeon'. Click on a person to bind.'',
         s\<lparr>current_role := Some ''Surgeon''\<rparr>)
      else if key = of_char CHR ''a'' then
        (Some ''[Role] Current role set to 'Assistant'. Click on a person to bind.'',
         s\<lparr>current_role := Some ''Assistant''\<rparr>)
      else if key = of_char CHR ''n'' then
        (Some ''[Role] Current role set to 'Nurse'. Click on a person to bind.'',
         s\<lparr>current_role := Some ''Nurse''\<rparr>)
      else if key = 27 then
        (Some ''[Role] Binding cancelled.'', s\<lparr>current_role := None\<rparr>)
      else (None, s))"

subsection \<open>The click buffer\<close>

definition register_click :: "'f manager \<Rightarrow> int \<Rightarrow> int \<Rightarrow> 'f manager" where
  "register_click s x y = s\<lparr>click_pos := (x, y), click_pending := True\<rparr>"

subsection \<open>Numbered role names\<close>

text \<open>
  The f-strings format a counter with Python's \<^verbatim>\<open>str\<close> of an integer: decimal digits, most
  significant first, with a leading minus sign below zero.
\<close>

definition digit :: "nat \<Rightarrow> char" where
  "digit d = char_of (of_char CHR ''0'' + d)"

fun str_nat :: "nat \<Rightarrow> string" where
  "str_nat n = (if n < 10 then [digit n] else str_nat (n div 10) @ [digit (n mod 10)])"

declare str_nat.simps [simp del]

definition str_int :: "int \<Rightarrow> string" where
  "str_int i = (if i < 0 then CHR ''-'' # str_nat (nat (- i)) else str_nat (nat i))"

text \<open>
  \<^verbatim>\<open>_generate_role_name\<close>: the returned name and the manager after the call. The last
  branch is \<^verbatim>\<open>self.current_role or "Unknown"\<close>: \<^verbatim>\<open>None\<close> and the empty string are falsy.
\<close>

definition generate_role_name :: "'f manager \<Rightarrow> string \<times> 'f manager" where
  "generate_role_name s =
     (if current_role s = Some ''Surgeon'' then
        (let s' = s\<lparr>surgeon_count := surgeon_count s + 1\<rparr>
         in (''Surgeon_'' @ str_int (surgeon_count s'), s'))
      else if current_role s = Some ''Assistant'' then
        (let s' = s\<lparr>assistant_count := assistant_count s + 1\<rparr>
         in (''Assistant_'' @ str_int (assistant_count s'), s'))
      else if current_role s = Some ''Nurse'' then
        (let s' = s\<lparr>nurse_count := nurse_count s + 1\<rparr>
         in (''Nurse_'' @ str_int (nurse_count s'), s'))
      else
        (case current_role s of
           None \<Rightarrow> (''Unknown'', s)
         | Some r \<Rightarrow> (if r = [] then ''Unknown'' else r, s)))"

subsection \<open>Nearest body to a click\<close>

text \<open>
  The body of the \<^verbatim>\<open>for\<close> loop up to \<^verbatim>\<open>dist2\<close>, for one body: \<open>None\<close> where the loop
  takes \<^verbatim>\<open>continue\<close>, \<open>Some (Inl e)\<close> where \<^verbatim>\<open>int(...)\<close> raises \<open>e\<close>, and
  \<open>Some (Inr dist2)\<close> otherwise. \<^verbatim>\<open>bx\<close> is computed before \<^verbatim>\<open>by\<close>.
\<close>

definition body_dist2 ::
  "'f float_ops \<Rightarrow> 'f \<times> 'f \<Rightarrow> int \<times> int \<Rightarrow> 'f body \<Rightarrow> (py_error + int) option" where
  "body_dist2 ops scale click b =
     (case keypoint_2d b of
        None \<Rightarrow> None
      | Some [] \<Rightarrow> None
      | Some (kp # _) \<Rightarrow>
          if isnan ops (fst kp) \<or> isnan ops (snd kp) then None
          else
            (case to_int ops (fmul ops (fst kp) (fst scale)) of
               Inl e \<Rightarrow> Some (Inl e)
             | Inr bx \<Rightarrow>
                 (case to_int ops (fmul ops (snd kp) (snd scale)) of
                    Inl e \<Rightarrow> Some (Inl e)
                  | Inr by \<Rightarrow>
                      (let dx = bx - fst click;
                           dy = by - snd click
                       in Some (Inr (dx * dx + dy * dy))))))"

text \<open>
  The loop over \<^verbatim>\<open>bodies.body_list\<close>, with the loop variables \<^verbatim>\<open>best_body\<close> and
  \<^verbatim>\<open>best_dist2\<close> as the accumulator. An exception leaves the loop at once.
\<close>

fun nearest_loop ::
  "'f float_ops \<Rightarrow> 'f \<times> 'f \<Rightarrow> int \<times> int \<Rightarrow> 'f body list \<Rightarrow>
   'f body option \<times> int option \<Rightarrow> py_error + ('f body option \<times> int option)" where
  "nearest_loop ops scale click [] best = Inr best"
| "nearest_loop ops scale click (b # rest) (best_body, best_dist2) =
     (case body_dist2 ops scale click b of
        None \<Rightarrow> nearest_loop ops scale click rest (best_body, best_dist2)
      | Some (Inl e) \<Rightarrow> Inl e
      | Some (Inr dist2) \<Rightarrow>
          (case best_dist2 of
             None \<Rightarrow> nearest_loop ops scale click rest (Some b, Some dist2)
           | Some d \<Rightarrow>
               if dist2 < d then nearest_loop ops scale click rest (Some b, Some dist2)
               else nearest_loop ops scale click rest (best_body, best_dist2)))"

subsection \<open>Assigning a role from a click\<close>

text \<open>
  How a call of \<^verbatim>\<open>try_assign_from_click\<close> ends: the early return of line 79 (\<open>Ignored\<close>),
  one of the three \<^verbatim>\<open>[Bind]\<close> messages it prints (\<open>Assigned\<close> carries the role name and
  the body id of the message), or an exception.
\<close>

datatype outcome =
    Ignored
  | NoBodies
  | Assigned string int
  | NoValidBody
  | Raised py_error

text \<open>
  \<^verbatim>\<open>try_assign_from_click\<close>. The argument is \<open>None\<close> for Python's \<^verbatim>\<open>None\<close> and
  \<open>Some body_list\<close> for a \<^verbatim>\<open>Bodies\<close> object. An exception can only come from the loop,
  which writes no field of the manager.
\<close>

definition try_assign_from_click ::
  "'f float_ops \<Rightarrow> 'f manager \<Rightarrow> 'f body list option \<Rightarrow> outcome \<times> 'f manager" where
  "try_assign_from_click ops s bodies =
     (if \<not> click_pending s \<or> current_role s = None then (Ignored, s)
      else
        (case bodies of
           None \<Rightarrow> (NoBodies, s\<lparr>click_pending := False\<rparr>)
         | Some body_list \<Rightarrow>
             if length body_list = 0 then (NoBodies, s\<lparr>click_pending := False\<rparr>)
             else
               (case nearest_loop ops (image_scale s) (click_pos s) body_list (None, None) of
                  Inl e \<Rightarrow> (Raised e, s)
                | Inr (best_body, best_dist2) \<Rightarrow>
                    (case best_body of
                       Some b \<Rightarrow>
                         (let bid = body_id b;
                              (assigned_role, s') = generate_role_name s
                          in (Assigned assigned_role bid,
                              s'\<lparr>role_map := (role_map s')(bid \<mapsto> assigned_role),
                                 click_pending := False\<rparr>))
                     | None \<Rightarrow> (NoValidBody, s\<lparr>click_pending := False\<rparr>)))))"

text \<open>
  The block of the main loop of \<^verbatim>\<open>body_tracking.py\<close> (lines 381 to 427) that assigns a
  role from a click. Its local variables carry the names of the manager's fields, so the
  same record holds them. \<^verbatim>\<open>bodies\<close> is always a \<^verbatim>\<open>Bodies\<close> object there. A skipped
  block prints nothing (\<open>Ignored\<close>). The last branch of the naming is
  \<^verbatim>\<open>assigned_role = current_role\<close>, reached only under the test that \<^verbatim>\<open>current_role\<close> is
  not \<^verbatim>\<open>None\<close>.
\<close>

definition inline_click_block ::
  "'f float_ops \<Rightarrow> 'f manager \<Rightarrow> 'f body list \<Rightarrow> outcome \<times> 'f manager" where
  "inline_click_block ops s body_list =
     (if click_pending s \<and> current_role s \<noteq> None \<and> length body_list > 0 then
        (case nearest_loop ops (image_scale s) (click_pos s) body_list (None, None) of
           Inl e \<Rightarrow> (Raised e, s)
         | Inr (best_body, best_dist2) \<Rightarrow>
             (case best_body of
                Some b \<Rightarrow>
                  (let bid = body_id b;
                       (assigned_role, s') =
                         (if current_role s = Some ''Surgeon'' then
                            (let s' = s\<lparr>surgeon_count := surgeon_count s + 1\<rparr>
                             in (''Surgeon_'' @ str_int (surgeon_count s'), s'))
                          else if current_role s = Some ''Assistant'' then
                            (let s' = s\<lparr>assistant_count := assistant_count s + 1\<rparr>
                             in (''Assistant_'' @ str_int (assistant_count s'), s'))
                          else if current_role s = Some ''Nurse'' then
                            (let s' = s\<lparr>nurse_count := nurse_count s + 1\<rparr>
                             in (''Nurse_'' @ str_int (nurse_count s'), s'))
                          else (the (current_role s), s))
                   in (Assigned assigned_role bid,
                       s'\<lparr>role_map := (role_map s')(bid \<mapsto> assigned_role),
                          click_pending := False\<rparr>))
              | None \<Rightarrow> (NoValidBody, s\<lparr>click_pending := False\<rparr>)))
      else (Ignored, s))"

subsection \<open>Sequences of calls\<close>

text \<open>
  The calls the viewer and the main loop of \<^verbatim>\<open>main.py\<close> make on the manager: a key
  press, a click outside the help button, and one \<^verbatim>\<open>try_assign_from_click\<close> per frame.
  After a call that raised, the manager is as the call left it.
\<close>

datatype 'f event =
    Key int
  | Click int int
  | Frame "'f body list option"

fun apply_event :: "'f float_ops \<Rightarrow> 'f manager \<Rightarrow> 'f event \<Rightarrow> 'f manager" where
  "apply_event ops s (Key key) = snd (set_current_role_from_key s key)"
| "apply_event ops s (Click x y) = register_click s x y"
| "apply_event ops s (Frame bodies) = snd (try_assign_from_click ops s bodies)"

fun run :: "'f float_ops \<Rightarrow> 'f manager \<Rightarrow> 'f event list \<Rightarrow> 'f manager" where
  "run ops s [] = s"
| "run ops s (e # es) = run ops (apply_event ops s e) es"

text \<open>The role names handed out during a run, in the order of the calls.\<close>

fun issued :: "'f float_ops \<Rightarrow> 'f manager \<Rightarrow> 'f event \<Rightarrow> string list" where
  "issued ops s (Frame bodies) =
     (case fst (try_assign_from_click ops s bodies) of
        Assigned assigned_role bid \<Rightarrow> [assigned_role]
      | _ \<Rightarrow> [])"
| "issued ops s _ = []"

fun issued_names :: "'f float_ops \<Rightarrow> 'f manager \<Rightarrow> 'f event list \<Rightarrow> string list" where
  "issued_names ops s [] = []"
| "issued_names ops s (e # es) = issued ops s e @ issued_names ops (apply_event ops s e) es"

subsection \<open>A concrete instance of the float operations\<close>

text \<open>
  Rational numbers with NaN (\<open>None\<close>), exact products and truncation towards zero: on
  values whose product a float represents exactly this is the arithmetic of the floats.
  It serves to evaluate the definitions on concrete frames.
\<close>

definition trunc_rat :: "rat \<Rightarrow> int" where
  "trunc_rat q = (if q < 0 then \<lceil>q\<rceil> else \<lfloor>q\<rfloor>)"

definition exact_ops :: "rat option float_ops" where
  "exact_ops =
     \<lparr> isnan = (\<lambda>x. x = None),
       fmul = (\<lambda>x y. case (x, y) of (Some a, Some b) \<Rightarrow> Some (a * b) | _ \<Rightarrow> None),
       to_int = (\<lambda>x. case x of None \<Rightarrow> Inl ValueError | Some q \<Rightarrow> Inr (trunc_rat q)) \<rparr>"

definition at_point :: "int \<Rightarrow> rat \<Rightarrow> rat \<Rightarrow> rat option body" where
  "at_point i x y = \<lparr> body_id = i, keypoint_2d = Some [(Some x, Some y)] \<rparr>"

text \<open>
  A manager for an unscaled display, and the frame of two bodies at \<open>(100, 100)\<close> and
  \<open>(500, 500)\<close>.
\<close>

definition unit_manager :: "rat option manager" where
  "unit_manager = new_manager (Some 1, Some 1)"

definition two_bodies :: "rat option body list" where
  "two_bodies = [at_point 1 100 100, at_point 2 500 500]"

text \<open>
  Two bodies with more than one keypoint each: the first keypoints are at \<open>(100, 100)\<close> and
  \<open>(500, 500)\<close>, and a later keypoint of the second body is at \<open>(110, 110)\<close>.
\<close>

definition two_skeletons :: "rat option body list" where
  "two_skeletons =
     [\<lparr> body_id = 1, keypoint_2d = Some [(Some 100, Some 100), (Some 900, Some 900)] \<rparr>,
      \<lparr> body_id = 2, keypoint_2d = Some [(Some 500, Some 500), (Some 110, Some 110)] \<rparr>]"

text \<open>
  Bodies the loop skips: a NaN coordinate, no keypoint array, an empty keypoint array.
\<close>

definition nan_body :: "rat option body" where
  "nan_body = \<lparr> body_id = 7, keypoint_2d = Some [(None, Some 110)] \<rparr>"

definition untracked_bodies :: "rat option body list" where
  "untracked_bodies =
     [nan_body, \<lparr> body_id = 8, keypoint_2d = None \<rparr>, \<lparr> body_id = 9, keypoint_2d = Some [] \<rparr>]"

text \<open>
  Three bindings in a row on that frame: Surgeon at the first body, Surgeon at the second
  body, then Assistant at the first body again.
\<close>

definition three_bindings :: "rat option event list" where
  "three_bindings =
     [Key 115, Click 110 110, Frame (Some two_bodies),
      Click 510 510, Frame (Some two_bodies),
      Key 97, Click 110 110, Frame (Some two_bodies)]"

section \<open>Properties\<close>

subsection \<open>Sequences of calls\<close>

lemma run_append: "run ops s (es @ fs) = run ops (run ops s es) fs"
  by (induction es arbitrary: s) simp_all

subsection \<open>Evaluation on concrete frames\<close>

text \<open>
  The manager after the key \<open>s\<close> and a click at \<open>(110, 110)\<close>, and what the loop and
  \<open>try_assign_from_click\<close> compute there on the frames defined above.
\<close>

lemma str_int_1: "str_int 1 = ''1''"
  by code_simp

lemma ready:
  "run exact_ops unit_manager [Key 115, Click 110 110]
     = unit_manager\<lparr>current_role := Some ''Surgeon'', click_pos := (110, 110),
         click_pending := True\<rparr>"
  by (simp add: set_current_role_from_key_def register_click_def)

lemma dist_two_bodies:
  "body_dist2 exact_ops (Some 1, Some 1) (110, 110) (at_point 1 100 100) = Some (Inr 200)"
  "body_dist2 exact_ops (Some 1, Some 1) (110, 110) (at_point 2 500 500) = Some (Inr 304200)"
  by (simp_all add: body_dist2_def exact_ops_def at_point_def trunc_rat_def)

lemma length_two_bodies: "length two_bodies = 2"
  by (simp add: two_bodies_def)

lemma loop_two_bodies:
  "nearest_loop exact_ops (Some 1, Some 1) (110, 110) two_bodies (None, None)
     = Inr (Some (at_point 1 100 100), Some 200)"
  by (simp add: two_bodies_def dist_two_bodies)

lemma try_assign_two_bodies:
  "try_assign_from_click exact_ops
        (run exact_ops unit_manager [Key 115, Click 110 110]) (Some two_bodies)
      = (Assigned ''Surgeon_1'' 1,
         unit_manager\<lparr>current_role := Some ''Surgeon'', click_pos := (110, 110),
           surgeon_count := 1, role_map := [1 \<mapsto> ''Surgeon_1''], click_pending := False\<rparr>)"
  unfolding ready
  by (simp add: try_assign_from_click_def unit_manager_def new_manager_def loop_two_bodies
        length_two_bodies generate_role_name_def str_int_1 at_point_def)

lemma names_three_bindings:
  "issued_names exact_ops unit_manager three_bindings
     = [''Surgeon_1'', ''Surgeon_2'', ''Assistant_1'']"
  by code_simp

lemma state_three_bindings:
  "role_map (run exact_ops unit_manager three_bindings) 1 = Some ''Assistant_1''"
  "role_map (run exact_ops unit_manager three_bindings) 2 = Some ''Surgeon_2''"
  "surgeon_count (run exact_ops unit_manager three_bindings) = 2"
  "assistant_count (run exact_ops unit_manager three_bindings) = 1"
  "nurse_count (run exact_ops unit_manager three_bindings) = 0"
  by code_simp+

lemma exact_conversion:
  "to_int exact_ops (fmul exact_ops (Some (of_int n)) (Some 1)) = Inr n"
  by (simp add: exact_ops_def trunc_rat_def)

lemma dist_nan_body:
  "body_dist2 exact_ops (Some 1, Some 1) (110, 110) nan_body = None"
  by (simp add: body_dist2_def exact_ops_def nan_body_def)

lemma loop_nan_body:
  "nearest_loop exact_ops (Some 1, Some 1) (110, 110) (nan_body # two_bodies) (None, None)
     = Inr (Some (at_point 1 100 100), Some 200)"
  by (simp add: two_bodies_def dist_two_bodies dist_nan_body)

subsection \<open>The click buffer keeps the last click only\<close>

text \<open>
  C7. \<open>register_click\<close> is last-write-wins: a click registered after another one that
  was not consumed leaves the manager exactly as the second click alone does, with the
  flag set and the position of the second click; after any number of clicks in a row only
  the last one is buffered.
\<close>

theorem register_click_last_write_wins:
  "register_click (register_click s x1 y1) x2 y2 = register_click s x2 y2
   \<and> click_pending (register_click s x2 y2)
   \<and> click_pos (register_click s x2 y2) = (x2, y2)
   \<and> run ops s (map (\<lambda>(x, y). Click x y) (clicks @ [(x2, y2)])) = register_click s x2 y2"
proof -
  have twice: "register_click (register_click t a b) x y = register_click t x y"
    for t :: "'a manager" and a b x y
    by (simp add: register_click_def)
  have many: "register_click (run ops t (map (\<lambda>(x, y). Click x y) cs)) x y = register_click t x y"
    for t :: "'a manager" and cs x y
    by (induction cs arbitrary: t) (auto simp: twice)
  show ?thesis
    by (simp add: run_append many twice) (simp add: register_click_def)
qed

theorem register_click_last_write_wins_witness:
  "register_click (register_click (new_manager (Some 1, Some 1 :: rat option)) 3 4) 110 120
     = register_click (new_manager (Some 1, Some 1)) 110 120
   \<and> click_pos (run exact_ops (new_manager (Some 1, Some 1))
        [Click 3 4, Click 5 6, Click 110 120]) = (110, 120)
   \<and> click_pending (run exact_ops (new_manager (Some 1, Some 1))
        [Click 3 4, Click 5 6, Click 110 120])"
  using register_click_last_write_wins
    [of "new_manager (Some 1, Some 1 :: rat option)" 3 4 110 120 exact_ops "[(3, 4), (5, 6)]"]
  by simp

subsection \<open>Calls that assign nothing\<close>

text \<open>
  C3, as stated for every resolver, fails: with a click pending, the Nurse role selected
  and an empty body list, the block of the main loop of \<open>body_tracking.py\<close> is skipped as
  a whole, and the click is still pending after it.
\<close>

theorem inline_block_skipped_on_empty_frame:
  "click_pending (run exact_ops unit_manager [Key 110, Click 110 110])
   \<and> current_role (run exact_ops unit_manager [Key 110, Click 110 110]) = Some ''Nurse''
   \<and> click_pending (snd (inline_click_block exact_ops
        (run exact_ops unit_manager [Key 110, Click 110 110]) []))"
  by (simp add: inline_click_block_def register_click_def set_current_role_from_key_def)

text \<open>
  C3, amended. When a click is pending and a role is selected but the frame has no bodies
  (an empty body list, or no \<open>Bodies\<close> object at all), \<open>try_assign_from_click\<close> clears the
  pending flag and does nothing else: the role map and the counters stay as they were. The
  block of \<open>body_tracking.py\<close> on an empty body list changes nothing at all: it assigns
  nothing either, and the click stays pending.
\<close>

theorem empty_frame_clears_click_in_manager:
  "click_pending s \<Longrightarrow> current_role s \<noteq> None \<Longrightarrow> bodies = None \<or> bodies = Some [] \<Longrightarrow>
   try_assign_from_click ops s bodies = (NoBodies, s\<lparr>click_pending := False\<rparr>)
   \<and> inline_click_block ops s [] = (Ignored, s)"
  by (auto simp: try_assign_from_click_def inline_click_block_def)

theorem empty_frame_clears_click_in_manager_witness:
  "click_pending (run exact_ops unit_manager [Key 110, Click 110 110])
   \<and> current_role (run exact_ops unit_manager [Key 110, Click 110 110]) = Some ''Nurse''
   \<and> try_assign_from_click exact_ops
       (run exact_ops unit_manager [Key 110, Click 110 110]) (Some [])
     = (NoBodies, (run exact_ops unit_manager [Key 110, Click 110 110])\<lparr>click_pending := False\<rparr>)
   \<and> inline_click_block exact_ops (run exact_ops unit_manager [Key 110, Click 110 110]) []
     = (Ignored, run exact_ops unit_manager [Key 110, Click 110 110])"
proof -
  let ?s = "run exact_ops unit_manager [Key 110, Click 110 110]"
  have a: "click_pending ?s" "current_role ?s = Some ''Nurse''"
    by (simp_all add: register_click_def set_current_role_from_key_def)
  have b: "current_role ?s \<noteq> None" using a(2) by simp
  have c: "Some [] = None \<or> Some [] = (Some [] :: rat option body list option)" by simp
  show ?thesis
    using a empty_frame_clears_click_in_manager [OF a(1) b c, of exact_ops]
    by (simp only: simp_thms)
qed

text \<open>
  C4. A call with no click pending or no role selected returns at once and leaves the
  whole manager as it was; so a click registered while no role is selected is still
  pending, with its position, after any number of frames.
\<close>

theorem try_assign_ignored:
  "(\<not> click_pending s \<or> current_role s = None \<longrightarrow>
      try_assign_from_click ops s bodies = (Ignored, s))
   \<and> (current_role s = None \<longrightarrow>
      run ops (register_click s x y) (map Frame frames) = register_click s x y
      \<and> click_pending (run ops (register_click s x y) (map Frame frames)))"
proof -
  have one: "try_assign_from_click ops t b = (Ignored, t)"
    if "\<not> click_pending t \<or> current_role t = None" for t :: "'a manager" and b
    using that by (auto simp: try_assign_from_click_def)
  have many: "run ops t (map Frame fs) = t"
    if "current_role t = None" for t :: "'a manager" and fs
    using that by (induction fs) (simp_all add: one)
  show ?thesis
    using one [of s bodies] many [of "register_click s x y" frames]
    by (simp add: register_click_def)
qed

theorem try_assign_ignored_witness:
  "current_role (new_manager (Some 1, Some 1 :: rat option)) = None
   \<and> try_assign_from_click exact_ops (new_manager (Some 1, Some 1))
        (Some [at_point 1 100 100])
      = (Ignored, new_manager (Some 1, Some 1))
   \<and> click_pending (run exact_ops (register_click (new_manager (Some 1, Some 1)) 110 110)
        [Frame (Some [at_point 1 100 100]), Frame None, Frame (Some [])])"
proof -
  have no_role: "current_role (new_manager (Some 1, Some 1 :: rat option)) = None"
    by (simp add: new_manager_def)
  show ?thesis
    using no_role try_assign_ignored
      [of "new_manager (Some 1, Some 1 :: rat option)" exact_ops "Some [at_point 1 100 100]"
          110 110 "[Some [at_point 1 100 100], None, Some []]"]
    by (simp add: register_click_def)
qed

subsection \<open>Role selection\<close>

lemma key_sets_role:
  "key \<in> {of_char CHR ''s'', of_char CHR ''a'', of_char CHR ''n'', 27} \<Longrightarrow>
   current_role (snd (set_current_role_from_key t key))
     = current_role (snd (set_current_role_from_key s key))"
  by (auto simp: set_current_role_from_key_def)

lemma other_key_ignored:
  "key \<notin> {of_char CHR ''s'', of_char CHR ''a'', of_char CHR ''n'', 27} \<Longrightarrow>
   set_current_role_from_key s key = (None, s)"
  by (auto simp: set_current_role_from_key_def)

lemma run_keys_role:
  "current_role (run ops s (map Key keys)) =
     (let changing = filter (\<lambda>k. k \<in> {of_char CHR ''s'', of_char CHR ''a'', of_char CHR ''n'', 27}) keys
      in if changing = [] then current_role s
         else current_role (snd (set_current_role_from_key s (last changing))))"
proof (induction keys rule: rev_induct)
  case Nil
  show ?case by simp
next
  case (snoc k keys)
  show ?case
  proof (cases "k \<in> {of_char CHR ''s'', of_char CHR ''a'', of_char CHR ''n'', 27}")
    case True
    then show ?thesis
      using key_sets_role [OF True, of "run ops s (map Key keys)" s]
      by (simp add: run_append Let_def)
  next
    case False
    then show ?thesis
      using snoc other_key_ignored [OF False, of "run ops s (map Key keys)"]
      by (simp add: run_append Let_def)
  qed
qed

text \<open>
  C6. \<open>set_current_role_from_key\<close> selects Surgeon on \<open>s\<close>, Assistant on \<open>a\<close>, Nurse on
  \<open>n\<close> and no role on ESC (27); it returns a non-empty status string on exactly these four
  keys; any other key returns no message and leaves the manager as it was; no key changes a
  field other than \<open>current_role\<close>. After any sequence of keys the selected role is the one
  the last of these four keys in the sequence sets, or the initial one if none occurs.
\<close>

theorem set_current_role_from_key_effect:
  "current_role (snd (set_current_role_from_key s (of_char CHR ''s''))) = Some ''Surgeon''
   \<and> current_role (snd (set_current_role_from_key s (of_char CHR ''a''))) = Some ''Assistant''
   \<and> current_role (snd (set_current_role_from_key s (of_char CHR ''n''))) = Some ''Nurse''
   \<and> current_role (snd (set_current_role_from_key s 27)) = None
   \<and> ((\<exists>msg. fst (set_current_role_from_key s key) = Some msg \<and> msg \<noteq> [])
        \<longleftrightarrow> key \<in> {of_char CHR ''s'', of_char CHR ''a'', of_char CHR ''n'', 27})
   \<and> (fst (set_current_role_from_key s key) = None
        \<longleftrightarrow> key \<notin> {of_char CHR ''s'', of_char CHR ''a'', of_char CHR ''n'', 27})
   \<and> (key \<notin> {of_char CHR ''s'', of_char CHR ''a'', of_char CHR ''n'', 27}
        \<longrightarrow> set_current_role_from_key s key = (None, s))
   \<and> snd (set_current_role_from_key s key)
        = s\<lparr>current_role := current_role (snd (set_current_role_from_key s key))\<rparr>
   \<and> current_role (run ops s (map Key keys)) =
       (let changing = filter (\<lambda>k. k \<in> {of_char CHR ''s'', of_char CHR ''a'', of_char CHR ''n'', 27}) keys
        in if changing = [] then current_role s
           else current_role (snd (set_current_role_from_key s (last changing))))"
proof -
  have a: "current_role (snd (set_current_role_from_key s (of_char CHR ''s''))) = Some ''Surgeon''"
    by (simp add: set_current_role_from_key_def)
  have b: "current_role (snd (set_current_role_from_key s (of_char CHR ''a''))) = Some ''Assistant''"
    by (simp add: set_current_role_from_key_def)
  have c: "current_role (snd (set_current_role_from_key s (of_char CHR ''n''))) = Some ''Nurse''"
    by (simp add: set_current_role_from_key_def)
  have d: "current_role (snd (set_current_role_from_key s 27)) = None"
    by (simp add: set_current_role_from_key_def)
  have e: "(\<exists>msg. fst (set_current_role_from_key s key) = Some msg \<and> msg \<noteq> [])
        \<longleftrightarrow> key \<in> {of_char CHR ''s'', of_char CHR ''a'', of_char CHR ''n'', 27}"
    by (simp add: set_current_role_from_key_def)
  have f: "fst (set_current_role_from_key s key) = None
        \<longleftrightarrow> key \<notin> {of_char CHR ''s'', of_char CHR ''a'', of_char CHR ''n'', 27}"
    by (simp add: set_current_role_from_key_def)
  have g: "snd (set_current_role_from_key s key)
        = s\<lparr>current_role := current_role (snd (set_current_role_from_key s key))\<rparr>"
    by (simp add: set_current_role_from_key_def)
  show ?thesis
    using a b c d e f g other_key_ignored [of key s] run_keys_role [of ops s keys]
    by blast
qed

theorem set_current_role_from_key_effect_witness:
  "current_role (run exact_ops (new_manager (Some 1, Some 1)) (map Key [115, 113, 27, 97, 120]))
     = Some ''Assistant''
   \<and> set_current_role_from_key (new_manager (Some 1, Some 1 :: rat option)) 120
     = (None, new_manager (Some 1, Some 1))"
  using set_current_role_from_key_effect
    [of "new_manager (Some 1, Some 1 :: rat option)" 120 exact_ops "[115, 113, 27, 97, 120]"]
  by simp

subsection \<open>The pending flag after a call\<close>

text \<open>
  C5, as stated, fails: a click registered while no role is selected is still pending after
  a call of \<open>try_assign_from_click\<close>, even on a frame with a body.
\<close>

theorem pending_flag_survives_without_role:
  "click_pending (snd (try_assign_from_click exact_ops
     (register_click (new_manager (Some 1, Some 1)) 110 110)
     (Some [at_point 1 100 100])))"
  by (simp add: try_assign_from_click_def register_click_def new_manager_def)

text \<open>
  C5, amended. After a call of \<open>try_assign_from_click\<close> made while a role is selected and
  that returns without an exception, the pending flag is false; a call made while no role is
  selected leaves the flag as it was.
\<close>

theorem pending_flag_after_try_assign:
  "(current_role s \<noteq> None \<and> (\<forall>e. fst (try_assign_from_click ops s bodies) \<noteq> Raised e)
      \<longrightarrow> \<not> click_pending (snd (try_assign_from_click ops s bodies)))
   \<and> (current_role s = None
      \<longrightarrow> click_pending (snd (try_assign_from_click ops s bodies)) = click_pending s)"
  by (auto simp: try_assign_from_click_def Let_def
           split: option.splits sum.splits prod.splits)

theorem pending_flag_after_try_assign_witness:
  "current_role (run exact_ops unit_manager [Key 115, Click 110 110]) \<noteq> None
   \<and> fst (try_assign_from_click exact_ops
        (run exact_ops unit_manager [Key 115, Click 110 110]) (Some two_bodies))
      = Assigned ''Surgeon_1'' 1
   \<and> \<not> click_pending (snd (try_assign_from_click exact_ops
        (run exact_ops unit_manager [Key 115, Click 110 110]) (Some two_bodies)))
   \<and> current_role (register_click unit_manager 110 110) = None
   \<and> click_pending (snd (try_assign_from_click exact_ops
        (register_click unit_manager 110 110) (Some two_bodies)))"
proof -
  have a: "current_role (run exact_ops unit_manager [Key 115, Click 110 110]) \<noteq> None"
    unfolding ready by simp
  have b: "current_role (register_click unit_manager 110 110) = None"
    "click_pending (register_click unit_manager 110 110)"
    by (simp_all add: register_click_def unit_manager_def new_manager_def)
  show ?thesis
    using a b try_assign_two_bodies
      pending_flag_after_try_assign
        [of "run exact_ops unit_manager [Key 115, Click 110 110]" exact_ops "Some two_bodies"]
      pending_flag_after_try_assign
        [of "register_click unit_manager 110 110" exact_ops "Some two_bodies"]
    by simp
qed

subsection \<open>The block of the monolithic main loop\<close>

lemma generate_role_name_inline:
  "current_role s \<noteq> None \<Longrightarrow> current_role s \<noteq> Some [] \<Longrightarrow>
   generate_role_name s =
     (if current_role s = Some ''Surgeon'' then
        (let s' = s\<lparr>surgeon_count := surgeon_count s + 1\<rparr>
         in (''Surgeon_'' @ str_int (surgeon_count s'), s'))
      else if current_role s = Some ''Assistant'' then
        (let s' = s\<lparr>assistant_count := assistant_count s + 1\<rparr>
         in (''Assistant_'' @ str_int (assistant_count s'), s'))
      else if current_role s = Some ''Nurse'' then
        (let s' = s\<lparr>nurse_count := nurse_count s + 1\<rparr>
         in (''Nurse_'' @ str_int (nurse_count s'), s'))
      else (the (current_role s), s))"
  by (auto simp: generate_role_name_def split: option.splits)

text \<open>
  C9, as stated, fails: with a click pending, a role selected and an empty body list, the
  block of \<open>body_tracking.py\<close> is skipped and the click stays pending, while
  \<open>try_assign_from_click\<close> clears the flag.
\<close>

theorem inline_block_keeps_click_on_empty_frame:
  "click_pending (snd (inline_click_block exact_ops
      (run exact_ops (new_manager (Some 1, Some 1)) [Key 115, Click 110 110]) []))
   \<and> \<not> click_pending (snd (try_assign_from_click exact_ops
      (run exact_ops (new_manager (Some 1, Some 1)) [Key 115, Click 110 110]) (Some [])))"
  by (simp add: inline_click_block_def try_assign_from_click_def register_click_def
        set_current_role_from_key_def new_manager_def)

text \<open>
  C9, amended. From the same state, with a current role other than the empty string, and on
  the same body list, the block and \<open>try_assign_from_click\<close> end the same way and leave the
  same state whenever the list is non-empty, or no click is pending, or no role is selected.
  On an empty list with a click pending and a role selected the block changes nothing, and
  \<open>try_assign_from_click\<close> clears the pending flag and changes nothing else.
\<close>

theorem inline_block_equivalence:
  "(current_role s \<noteq> Some [] \<and>
      (body_list \<noteq> [] \<or> \<not> click_pending s \<or> current_role s = None)
      \<longrightarrow> inline_click_block ops s body_list = try_assign_from_click ops s (Some body_list))
   \<and> (click_pending s \<and> current_role s \<noteq> None
      \<longrightarrow> inline_click_block ops s [] = (Ignored, s)
        \<and> try_assign_from_click ops s (Some []) = (NoBodies, s\<lparr>click_pending := False\<rparr>))"
proof -
  have ignored: "inline_click_block ops s body_list = try_assign_from_click ops s (Some body_list)"
    if "\<not> click_pending s \<or> current_role s = None"
    using that by (auto simp: inline_click_block_def try_assign_from_click_def)
  have busy: "inline_click_block ops s body_list = try_assign_from_click ops s (Some body_list)"
    if h: "click_pending s" "current_role s \<noteq> None" "current_role s \<noteq> Some []" "body_list \<noteq> []"
    unfolding inline_click_block_def try_assign_from_click_def
      generate_role_name_inline [OF h(2) h(3)]
    using h by auto
  have empty: "inline_click_block ops s [] = (Ignored, s)"
    by (simp add: inline_click_block_def)
  have cleared: "try_assign_from_click ops s (Some []) = (NoBodies, s\<lparr>click_pending := False\<rparr>)"
    if "click_pending s" "current_role s \<noteq> None"
    using that by (simp add: try_assign_from_click_def)
  show ?thesis
    using ignored busy empty cleared by blast
qed

theorem inline_block_equivalence_witness:
  "current_role (run exact_ops unit_manager [Key 115, Click 110 110]) = Some ''Surgeon''
   \<and> click_pending (run exact_ops unit_manager [Key 115, Click 110 110])
   \<and> two_bodies \<noteq> []
   \<and> inline_click_block exact_ops
        (run exact_ops unit_manager [Key 115, Click 110 110]) two_bodies
      = try_assign_from_click exact_ops
        (run exact_ops unit_manager [Key 115, Click 110 110]) (Some two_bodies)
   \<and> fst (inline_click_block exact_ops
        (run exact_ops unit_manager [Key 115, Click 110 110]) two_bodies)
      = Assigned ''Surgeon_1'' 1
   \<and> inline_click_block exact_ops
        (run exact_ops unit_manager [Key 115, Click 110 110]) []
      = (Ignored, run exact_ops unit_manager [Key 115, Click 110 110])
   \<and> try_assign_from_click exact_ops
        (run exact_ops unit_manager [Key 115, Click 110 110]) (Some [])
      = (NoBodies, (run exact_ops unit_manager [Key 115, Click 110 110])
           \<lparr>click_pending := False\<rparr>)"
proof -
  let ?s = "run exact_ops unit_manager [Key 115, Click 110 110]"
  have a: "current_role ?s = Some ''Surgeon''" "click_pending ?s"
    unfolding ready by simp_all
  have b: "two_bodies \<noteq> []" by (simp add: two_bodies_def)
  show ?thesis
    using a b try_assign_two_bodies
      inline_block_equivalence [of ?s two_bodies exact_ops]
    by simp
qed

subsection \<open>The nearest body\<close>

lemma body_dist2_None_iff:
  "body_dist2 ops scale click b = None \<longleftrightarrow>
     keypoint_2d b = None \<or> keypoint_2d b = Some [] \<or>
     (\<exists>kp rest. keypoint_2d b = Some (kp # rest) \<and> (isnan ops (fst kp) \<or> isnan ops (snd kp)))"
  by (auto simp: body_dist2_def Let_def split: option.splits list.splits sum.splits)

lemma body_dist2_Inr_iff:
  "body_dist2 ops scale click b = Some (Inr d) \<longleftrightarrow>
     (\<exists>kp rest bx by. keypoint_2d b = Some (kp # rest)
        \<and> \<not> isnan ops (fst kp) \<and> \<not> isnan ops (snd kp)
        \<and> to_int ops (fmul ops (fst kp) (fst scale)) = Inr bx
        \<and> to_int ops (fmul ops (snd kp) (snd scale)) = Inr by
        \<and> d = (bx - fst click) * (bx - fst click) + (by - snd click) * (by - snd click))"
  by (auto simp: body_dist2_def Let_def split: option.splits list.splits sum.splits)

lemma body_dist2_Inl_iff:
  "body_dist2 ops scale click b = Some (Inl e) \<longleftrightarrow>
     (\<exists>kp rest. keypoint_2d b = Some (kp # rest)
        \<and> \<not> isnan ops (fst kp) \<and> \<not> isnan ops (snd kp)
        \<and> (to_int ops (fmul ops (fst kp) (fst scale)) = Inl e
           \<or> (\<exists>bx. to_int ops (fmul ops (fst kp) (fst scale)) = Inr bx
                \<and> to_int ops (fmul ops (snd kp) (snd scale)) = Inl e)))"
  by (auto simp: body_dist2_def Let_def split: option.splits list.splits sum.splits)

lemma nearest_loop_keep:
  "\<forall>b\<in>set bs. body_dist2 ops scale click b = None \<or>
      (\<exists>d'. body_dist2 ops scale click b = Some (Inr d') \<and> d \<le> d') \<Longrightarrow>
   nearest_loop ops scale click bs (best_body, Some d) = Inr (best_body, Some d)"
  by (induction bs) auto

lemma nearest_loop_all_skipped:
  "\<forall>b\<in>set bs. body_dist2 ops scale click b = None \<Longrightarrow>
   nearest_loop ops scale click bs (best_body, best_dist2) = Inr (best_body, best_dist2)"
  by (induction bs) auto

lemma nearest_loop_first_min:
  assumes "\<forall>b\<in>set bs. \<forall>e. body_dist2 ops scale click b \<noteq> Some (Inl e)"
    and "i < length bs"
    and "body_dist2 ops scale click (bs ! i) = Some (Inr d)"
    and "\<forall>j<length bs. \<forall>d'. body_dist2 ops scale click (bs ! j) = Some (Inr d') \<longrightarrow>
           d \<le> d' \<and> (j < i \<longrightarrow> d < d')"
    and "best_dist2 = None \<or> (\<exists>d0. best_dist2 = Some d0 \<and> d < d0)"
  shows "nearest_loop ops scale click bs (best_body, best_dist2) = Inr (Some (bs ! i), Some d)"
  using assms
proof (induction bs arbitrary: i best_body best_dist2)
  case Nil
  then show ?case by simp
next
  case (Cons b rest)
  show ?case
  proof (cases i)
    case 0
    have here: "body_dist2 ops scale click b = Some (Inr d)"
      using Cons.prems(3) 0 by simp
    have later: "\<forall>c\<in>set rest. body_dist2 ops scale click c = None \<or>
        (\<exists>d'. body_dist2 ops scale click c = Some (Inr d') \<and> d \<le> d')"
    proof
      fix c assume c: "c \<in> set rest"
      then obtain j where j: "j < length rest" "rest ! j = c"
        by (auto simp: in_set_conv_nth)
      show "body_dist2 ops scale click c = None \<or>
        (\<exists>d'. body_dist2 ops scale click c = Some (Inr d') \<and> d \<le> d')"
      proof (cases "body_dist2 ops scale click c")
        case None
        then show ?thesis by simp
      next
        case (Some r)
        then obtain d' where d': "r = Inr d'"
          using Cons.prems(1) c by (cases r) auto
        have "d \<le> d'"
          using Cons.prems(4) [rule_format, of "Suc j" d'] j Some d' by simp
        then show ?thesis using Some d' by simp
      qed
    qed
    show ?thesis
      using here Cons.prems(5) 0 nearest_loop_keep [OF later]
      by auto
  next
    case (Suc k)
    have k: "k < length rest" "body_dist2 ops scale click (rest ! k) = Some (Inr d)"
      using Cons.prems(2,3) Suc by simp_all
    have noerr: "\<forall>c\<in>set rest. \<forall>e. body_dist2 ops scale click c \<noteq> Some (Inl e)"
      using Cons.prems(1) by simp
    have mins: "\<forall>j<length rest. \<forall>d'. body_dist2 ops scale click (rest ! j) = Some (Inr d') \<longrightarrow>
           d \<le> d' \<and> (j < k \<longrightarrow> d < d')"
    proof (intro allI impI)
      fix j d' assume "j < length rest" "body_dist2 ops scale click (rest ! j) = Some (Inr d')"
      then show "d \<le> d' \<and> (j < k \<longrightarrow> d < d')"
        using Cons.prems(4) [rule_format, of "Suc j" d'] Suc by simp
    qed
    have step: "nearest_loop ops scale click rest (bb, bd) = Inr (Some (rest ! k), Some d)"
      if "bd = None \<or> (\<exists>d0. bd = Some d0 \<and> d < d0)" for bb bd
      using Cons.IH [OF noerr k(1) k(2) mins that] .
    show ?thesis
    proof (cases "body_dist2 ops scale click b")
      case None
      then show ?thesis
        using step [OF Cons.prems(5)] Suc by simp
    next
      case (Some r)
      then obtain d' where d': "r = Inr d'"
        using Cons.prems(1) by (cases r) auto
      have less: "d < d'"
        using Cons.prems(4) [rule_format, of 0 d'] Some d' Suc by simp
      show ?thesis
        using Some d' less Suc Cons.prems(5) step [of "Some d'" "Some b"] step [of best_dist2 best_body]
        by (auto split: option.splits)
    qed
  qed
qed

lemma exists_first_min:
  assumes "\<exists>b\<in>set bs. \<exists>d. f b = Some (Inr (d::int))"
  shows "\<exists>i d. i < length bs \<and> f (bs ! i) = Some (Inr d) \<and>
     (\<forall>j<length bs. \<forall>d'. f (bs ! j) = Some (Inr d') \<longrightarrow> d \<le> d' \<and> (j < i \<longrightarrow> d < d'))"
proof -
  let ?D = "{d. \<exists>j<length bs. f (bs ! j) = Some (Inr d)}"
  have "?D \<subseteq> (\<lambda>j. case f (bs ! j) of Some (Inr d) \<Rightarrow> d | _ \<Rightarrow> 0) ` {..<length bs}"
    by (auto simp: image_iff) (metis (mono_tags, lifting) lessThan_iff old.sum.simps(6) option.simps(5))
  then have fin: "finite ?D"
    using finite_surj by blast
  have ne: "?D \<noteq> {}"
    using assms by (fastforce simp: in_set_conv_nth)
  define m where "m = Min ?D"
  have m_in: "m \<in> ?D" unfolding m_def using fin ne by (rule Min_in)
  have m_le: "\<And>d. d \<in> ?D \<Longrightarrow> m \<le> d" unfolding m_def using fin by simp
  define i where "i = (LEAST j. j < length bs \<and> f (bs ! j) = Some (Inr m))"
  have ex: "\<exists>j. j < length bs \<and> f (bs ! j) = Some (Inr m)" using m_in by blast
  have i_ok: "i < length bs \<and> f (bs ! i) = Some (Inr m)"
    unfolding i_def using ex by (rule LeastI_ex)
  have i_least: "\<And>j. j < i \<Longrightarrow> \<not> (j < length bs \<and> f (bs ! j) = Some (Inr m))"
    unfolding i_def by (rule not_less_Least)
  have "\<forall>j<length bs. \<forall>d'. f (bs ! j) = Some (Inr d') \<longrightarrow> m \<le> d' \<and> (j < i \<longrightarrow> m < d')"
  proof (intro allI impI)
    fix j d' assume j: "j < length bs" "f (bs ! j) = Some (Inr d')"
    then have le: "m \<le> d'" using m_le by blast
    have "j < i \<longrightarrow> m \<noteq> d'" using i_least j by blast
    then show "m \<le> d' \<and> (j < i \<longrightarrow> m < d')" using le by auto
  qed
  then show ?thesis using i_ok by blast
qed

text \<open>
  C1. In a call of \<open>try_assign_from_click\<close> with a click pending, a role selected and a
  non-empty body list, in which every first keypoint without NaN converts to integers
  (no \<open>int(...)\<close> raises) and some body has a first keypoint without NaN: the body
  bound is the one at an index \<open>i\<close> whose first keypoint, each coordinate multiplied by
  its scale factor and truncated to the integers \<open>bx\<close> and \<open>by\<close>, is nearest to the click.
  Every body of the frame that has a first keypoint without NaN is compared, whatever
  else it carries: its squared distance from the click, taken the same way, is not smaller
  than that of body \<open>i\<close>, and is larger if it comes before \<open>i\<close> in the list. The id of
  body \<open>i\<close> is mapped to the name that \<open>generate_role_name\<close> returns, and the pending flag
  is cleared.
\<close>

theorem nearest_body_is_bound:
  assumes "click_pending s" and "current_role s \<noteq> None" and "body_list \<noteq> []"
    and "\<forall>b\<in>set body_list. \<forall>kp rest.
           keypoint_2d b = Some (kp # rest) \<and> \<not> isnan ops (fst kp) \<and> \<not> isnan ops (snd kp) \<longrightarrow>
           (\<exists>bx by. to_int ops (fmul ops (fst kp) (fst (image_scale s))) = Inr bx
              \<and> to_int ops (fmul ops (snd kp) (snd (image_scale s))) = Inr by)"
    and "\<exists>b\<in>set body_list. \<exists>kp rest.
           keypoint_2d b = Some (kp # rest) \<and> \<not> isnan ops (fst kp) \<and> \<not> isnan ops (snd kp)"
  shows "\<exists>i kp rest bx by. i < length body_list
     \<and> keypoint_2d (body_list ! i) = Some (kp # rest)
     \<and> \<not> isnan ops (fst kp) \<and> \<not> isnan ops (snd kp)
     \<and> to_int ops (fmul ops (fst kp) (fst (image_scale s))) = Inr bx
     \<and> to_int ops (fmul ops (snd kp) (snd (image_scale s))) = Inr by
     \<and> (\<forall>j<length body_list. \<forall>kp' rest'.
           keypoint_2d (body_list ! j) = Some (kp' # rest')
           \<and> \<not> isnan ops (fst kp') \<and> \<not> isnan ops (snd kp') \<longrightarrow>
           (\<exists>bx' by'.
              to_int ops (fmul ops (fst kp') (fst (image_scale s))) = Inr bx'
              \<and> to_int ops (fmul ops (snd kp') (snd (image_scale s))) = Inr by'
              \<and> (bx - fst (click_pos s)) * (bx - fst (click_pos s))
                  + (by - snd (click_pos s)) * (by - snd (click_pos s))
                \<le> (bx' - fst (click_pos s)) * (bx' - fst (click_pos s))
                  + (by' - snd (click_pos s)) * (by' - snd (click_pos s))
              \<and> (j < i \<longrightarrow>
                  (bx - fst (click_pos s)) * (bx - fst (click_pos s))
                  + (by - snd (click_pos s)) * (by - snd (click_pos s))
                < (bx' - fst (click_pos s)) * (bx' - fst (click_pos s))
                  + (by' - snd (click_pos s)) * (by' - snd (click_pos s)))))
     \<and> try_assign_from_click ops s (Some body_list) =
         (Assigned (fst (generate_role_name s)) (body_id (body_list ! i)),
          (snd (generate_role_name s))
            \<lparr>role_map := (role_map s)(body_id (body_list ! i) \<mapsto> fst (generate_role_name s)),
             click_pending := False\<rparr>)"
proof -
  let ?f = "body_dist2 ops (image_scale s) (click_pos s)"
  have no_raise: "\<forall>b\<in>set body_list. \<forall>e. ?f b \<noteq> Some (Inl e)"
  proof (intro ballI allI notI)
    fix b e assume b: "b \<in> set body_list" and "?f b = Some (Inl e)"
    then obtain kp rest where kp: "keypoint_2d b = Some (kp # rest)"
        "\<not> isnan ops (fst kp)" "\<not> isnan ops (snd kp)"
      and bad: "to_int ops (fmul ops (fst kp) (fst (image_scale s))) = Inl e
           \<or> (\<exists>bx. to_int ops (fmul ops (fst kp) (fst (image_scale s))) = Inr bx
                \<and> to_int ops (fmul ops (snd kp) (snd (image_scale s))) = Inl e)"
      unfolding body_dist2_Inl_iff by blast
    from assms(4) b kp obtain bx "by" where
      "to_int ops (fmul ops (fst kp) (fst (image_scale s))) = Inr bx"
      "to_int ops (fmul ops (snd kp) (snd (image_scale s))) = Inr by"
      by blast
    with bad show False by auto
  qed
  have "\<exists>b\<in>set body_list. \<exists>d. ?f b = Some (Inr d)"
  proof -
    obtain b kp rest where b: "b \<in> set body_list" and kp: "keypoint_2d b = Some (kp # rest)"
      "\<not> isnan ops (fst kp)" "\<not> isnan ops (snd kp)"
      using assms(5) by blast
    have "?f b \<noteq> None"
      unfolding body_dist2_None_iff using kp by auto
    then obtain r where r: "?f b = Some r" by auto
    then obtain d where "r = Inr d"
      using no_raise b by (cases r) auto
    then show ?thesis using b r by blast
  qed
  from exists_first_min [OF this]
  obtain i d where i: "i < length body_list" "?f (body_list ! i) = Some (Inr d)"
    "\<forall>j<length body_list. \<forall>d'. ?f (body_list ! j) = Some (Inr d') \<longrightarrow>
       d \<le> d' \<and> (j < i \<longrightarrow> d < d')"
    by blast
  have loop: "nearest_loop ops (image_scale s) (click_pos s) body_list (None, None)
      = Inr (Some (body_list ! i), Some d)"
    by (rule nearest_loop_first_min [OF no_raise i]) simp
  obtain name s' where gen: "generate_role_name s = (name, s')"
    by force
  have "role_map (snd (generate_role_name s)) = role_map s"
    by (simp add: generate_role_name_def Let_def split: option.splits)
  then have same_map: "role_map s' = role_map s"
    by (simp add: gen)
  have bound: "try_assign_from_click ops s (Some body_list) =
         (Assigned (fst (generate_role_name s)) (body_id (body_list ! i)),
          (snd (generate_role_name s))
            \<lparr>role_map := (role_map s)(body_id (body_list ! i) \<mapsto> fst (generate_role_name s)),
             click_pending := False\<rparr>)"
    using assms(1,2,3) loop same_map
    by (simp add: try_assign_from_click_def gen Let_def)
  obtain kp rest bx "by" where chosen:
    "keypoint_2d (body_list ! i) = Some (kp # rest)"
    "\<not> isnan ops (fst kp)" "\<not> isnan ops (snd kp)"
    "to_int ops (fmul ops (fst kp) (fst (image_scale s))) = Inr bx"
    "to_int ops (fmul ops (snd kp) (snd (image_scale s))) = Inr by"
    and d: "d = (bx - fst (click_pos s)) * (bx - fst (click_pos s))
           + (by - snd (click_pos s)) * (by - snd (click_pos s))"
    using i(2) body_dist2_Inr_iff [of ops "image_scale s" "click_pos s" "body_list ! i" d]
    by blast
  have others: "\<exists>bx' by'.
              to_int ops (fmul ops (fst kp') (fst (image_scale s))) = Inr bx'
              \<and> to_int ops (fmul ops (snd kp') (snd (image_scale s))) = Inr by'
              \<and> (bx - fst (click_pos s)) * (bx - fst (click_pos s))
                  + (by - snd (click_pos s)) * (by - snd (click_pos s))
                \<le> (bx' - fst (click_pos s)) * (bx' - fst (click_pos s))
                  + (by' - snd (click_pos s)) * (by' - snd (click_pos s))
              \<and> (j < i \<longrightarrow>
                  (bx - fst (click_pos s)) * (bx - fst (click_pos s))
                  + (by - snd (click_pos s)) * (by - snd (click_pos s))
                < (bx' - fst (click_pos s)) * (bx' - fst (click_pos s))
                  + (by' - snd (click_pos s)) * (by' - snd (click_pos s)))"
    if j: "j < length body_list" and kp': "keypoint_2d (body_list ! j) = Some (kp' # rest')"
      "\<not> isnan ops (fst kp')" "\<not> isnan ops (snd kp')" for j kp' rest'
  proof -
    have "body_list ! j \<in> set body_list" using j by simp
    with assms(4) kp' obtain bx' by' where conv:
      "to_int ops (fmul ops (fst kp') (fst (image_scale s))) = Inr bx'"
      "to_int ops (fmul ops (snd kp') (snd (image_scale s))) = Inr by'"
      by blast
    let ?d' = "(bx' - fst (click_pos s)) * (bx' - fst (click_pos s))
                  + (by' - snd (click_pos s)) * (by' - snd (click_pos s))"
    have "?f (body_list ! j) = Some (Inr ?d')"
      unfolding body_dist2_Inr_iff using kp' conv by blast
    then have "d \<le> ?d' \<and> (j < i \<longrightarrow> d < ?d')"
      using i(3) j by blast
    then show ?thesis using conv d by blast
  qed
  show ?thesis
    using i(1) chosen others bound by blast
qed

theorem nearest_body_is_bound_witness:
  "click_pending (run exact_ops unit_manager [Key 115, Click 110 110])
   \<and> current_role (run exact_ops unit_manager [Key 115, Click 110 110]) = Some ''Surgeon''
   \<and> length two_skeletons = 2
   \<and> try_assign_from_click exact_ops
        (run exact_ops unit_manager [Key 115, Click 110 110]) (Some two_skeletons)
      = (Assigned ''Surgeon_1'' 1,
         unit_manager\<lparr>current_role := Some ''Surgeon'', click_pos := (110, 110),
           surgeon_count := 1, role_map := [1 \<mapsto> ''Surgeon_1''], click_pending := False\<rparr>)"
proof -
  let ?s = "run exact_ops unit_manager [Key 115, Click 110 110]"
  have s: "click_pending ?s" "current_role ?s = Some ''Surgeon''"
    "image_scale ?s = (Some 1, Some 1)" "click_pos ?s = (110, 110)"
    "role_map ?s = Map.empty" "surgeon_count ?s = 0"
    unfolding ready by (simp_all add: unit_manager_def new_manager_def)
  have len: "length two_skeletons = 2" by (simp add: two_skeletons_def)
  have k0: "keypoint_2d (two_skeletons ! 0) = Some [(Some 100, Some 100), (Some 900, Some 900)]"
    and k1: "keypoint_2d (two_skeletons ! 1) = Some [(Some 500, Some 500), (Some 110, Some 110)]"
    and id0: "body_id (two_skeletons ! 0) = 1"
    by (simp_all add: two_skeletons_def)
  have c100: "to_int exact_ops (fmul exact_ops (Some 100) (Some 1)) = Inr 100"
    and c500: "to_int exact_ops (fmul exact_ops (Some 500) (Some 1)) = Inr 500"
    using exact_conversion [of 100] exact_conversion [of 500] by simp_all
  have nan: "\<not> isnan exact_ops (Some q)" for q
    by (simp add: exact_ops_def)
  have h1: "current_role ?s \<noteq> None" using s(2) by simp
  have h2: "two_skeletons \<noteq> []" using len by auto
  have h3: "\<forall>b\<in>set two_skeletons. \<forall>kp rest.
           keypoint_2d b = Some (kp # rest)
           \<and> \<not> isnan exact_ops (fst kp) \<and> \<not> isnan exact_ops (snd kp) \<longrightarrow>
           (\<exists>bx by. to_int exact_ops (fmul exact_ops (fst kp) (fst (image_scale ?s))) = Inr bx
              \<and> to_int exact_ops (fmul exact_ops (snd kp) (snd (image_scale ?s))) = Inr by)"
    unfolding s by (auto simp: two_skeletons_def c100 c500)
  have h4: "\<exists>b\<in>set two_skeletons. \<exists>kp rest.
           keypoint_2d b = Some (kp # rest)
           \<and> \<not> isnan exact_ops (fst kp) \<and> \<not> isnan exact_ops (snd kp)"
    by (simp add: two_skeletons_def nan)
  have gen: "generate_role_name ?s = (''Surgeon_1'', ?s\<lparr>surgeon_count := 1\<rparr>)"
    using s(2) s(6) by (simp add: generate_role_name_def str_int_1)
  obtain i kp rest bx "by" where i: "i < length two_skeletons"
    and kp: "keypoint_2d (two_skeletons ! i) = Some (kp # rest)"
    and bx: "to_int exact_ops (fmul exact_ops (fst kp) (fst (image_scale ?s))) = Inr bx"
    and "by": "to_int exact_ops (fmul exact_ops (snd kp) (snd (image_scale ?s))) = Inr by"
    and least: "\<forall>j<length two_skeletons. \<forall>kp' rest'.
           keypoint_2d (two_skeletons ! j) = Some (kp' # rest')
           \<and> \<not> isnan exact_ops (fst kp') \<and> \<not> isnan exact_ops (snd kp') \<longrightarrow>
           (\<exists>bx' by'.
              to_int exact_ops (fmul exact_ops (fst kp') (fst (image_scale ?s))) = Inr bx'
              \<and> to_int exact_ops (fmul exact_ops (snd kp') (snd (image_scale ?s))) = Inr by'
              \<and> (bx - fst (click_pos ?s)) * (bx - fst (click_pos ?s))
                  + (by - snd (click_pos ?s)) * (by - snd (click_pos ?s))
                \<le> (bx' - fst (click_pos ?s)) * (bx' - fst (click_pos ?s))
                  + (by' - snd (click_pos ?s)) * (by' - snd (click_pos ?s))
              \<and> (j < i \<longrightarrow>
                  (bx - fst (click_pos ?s)) * (bx - fst (click_pos ?s))
                  + (by - snd (click_pos ?s)) * (by - snd (click_pos ?s))
                < (bx' - fst (click_pos ?s)) * (bx' - fst (click_pos ?s))
                  + (by' - snd (click_pos ?s)) * (by' - snd (click_pos ?s))))"
    and bound: "try_assign_from_click exact_ops ?s (Some two_skeletons) =
         (Assigned (fst (generate_role_name ?s)) (body_id (two_skeletons ! i)),
          (snd (generate_role_name ?s))
            \<lparr>role_map := (role_map ?s)(body_id (two_skeletons ! i) \<mapsto> fst (generate_role_name ?s)),
             click_pending := False\<rparr>)"
    using nearest_body_is_bound [OF s(1) h1 h2 h3 h4] by blast
  have "i = 0"
  proof (rule ccontr)
    assume "i \<noteq> 0"
    then have i1: "i = 1" using i len by simp
    then have "kp = (Some 500, Some 500)" using kp k1 by simp
    then have far: "bx = 500" "by = 500"
      using bx "by" c500 unfolding s by simp_all
    from least [rule_format, of 0 "(Some 100, Some 100)" "[(Some 900, Some 900)]"]
    obtain bx' by' where
      "to_int exact_ops (fmul exact_ops (Some 100) (fst (image_scale ?s))) = Inr bx'"
      "to_int exact_ops (fmul exact_ops (Some 100) (snd (image_scale ?s))) = Inr by'"
      "(bx - fst (click_pos ?s)) * (bx - fst (click_pos ?s))
         + (by - snd (click_pos ?s)) * (by - snd (click_pos ?s))
       \<le> (bx' - fst (click_pos ?s)) * (bx' - fst (click_pos ?s))
         + (by' - snd (click_pos ?s)) * (by' - snd (click_pos ?s))"
      using len k0 nan by auto
    then show False
      using far c100 unfolding s by simp
  qed
  have "try_assign_from_click exact_ops ?s (Some two_skeletons)
      = (Assigned ''Surgeon_1'' 1,
         unit_manager\<lparr>current_role := Some ''Surgeon'', click_pos := (110, 110),
           surgeon_count := 1, role_map := [1 \<mapsto> ''Surgeon_1''], click_pending := False\<rparr>)"
    using bound [unfolded gen] s(5) \<open>i = 0\<close> id0
    by (simp add: register_click_def set_current_role_from_key_def)
  then show ?thesis
    using s(1,2) len by (simp only: simp_thms)
qed

lemma nearest_loop_selects_valid:
  "nearest_loop ops scale click bs (best_body, best_dist2) = Inr (Some b, d) \<Longrightarrow>
   best_body = Some b \<or> (b \<in> set bs \<and> body_dist2 ops scale click b \<noteq> None)"
proof (induction bs arbitrary: best_body best_dist2)
  case Nil
  then show ?case by simp
next
  case (Cons a rest)
  show ?case
  proof (cases "body_dist2 ops scale click a")
    case None
    then show ?thesis using Cons.IH [of best_body best_dist2] Cons.prems by auto
  next
    case (Some r)
    show ?thesis
    proof (cases r)
      case (Inl e)
      then show ?thesis using Some Cons.prems by simp
    next
      case (Inr dist2)
      then show ?thesis
        using Some Cons.prems Cons.IH [of "Some a" "Some dist2"] Cons.IH [of best_body best_dist2]
        by (auto split: option.splits if_splits)
    qed
  qed
qed

text \<open>
  C8. A body whose \<open>keypoint_2d\<close> is absent or empty, or whose first keypoint has a NaN
  coordinate, is never the body the loop selects, and never the body whose id
  \<open>try_assign_from_click\<close> binds, however close to the click it would be; when every body
  of the frame is of this kind the loop selects none, no name is assigned, and the role map
  and the three counters stay as they were.
\<close>

theorem invalid_body_never_selected:
  "(nearest_loop ops (image_scale s) (click_pos s) body_list (None, None) = Inr (Some b, d)
      \<longrightarrow> b \<in> set body_list
        \<and> \<not> (keypoint_2d b = None \<or> keypoint_2d b = Some [] \<or>
             (\<exists>kp rest. keypoint_2d b = Some (kp # rest)
                \<and> (isnan ops (fst kp) \<or> isnan ops (snd kp)))))
   \<and> (fst (try_assign_from_click ops s (Some body_list)) = Assigned name bid
      \<longrightarrow> (\<exists>c\<in>set body_list. body_id c = bid
            \<and> \<not> (keypoint_2d c = None \<or> keypoint_2d c = Some [] \<or>
                 (\<exists>kp rest. keypoint_2d c = Some (kp # rest)
                    \<and> (isnan ops (fst kp) \<or> isnan ops (snd kp))))))
   \<and> ((\<forall>b\<in>set body_list.
          keypoint_2d b = None \<or> keypoint_2d b = Some [] \<or>
          (\<exists>kp rest. keypoint_2d b = Some (kp # rest)
             \<and> (isnan ops (fst kp) \<or> isnan ops (snd kp))))
      \<longrightarrow> nearest_loop ops (image_scale s) (click_pos s) body_list (None, None)
            = Inr (None, None)
        \<and> role_map (snd (try_assign_from_click ops s (Some body_list))) = role_map s
        \<and> surgeon_count (snd (try_assign_from_click ops s (Some body_list))) = surgeon_count s
        \<and> assistant_count (snd (try_assign_from_click ops s (Some body_list)))
            = assistant_count s
        \<and> nurse_count (snd (try_assign_from_click ops s (Some body_list))) = nurse_count s
        \<and> (\<forall>name bid. fst (try_assign_from_click ops s (Some body_list)) \<noteq> Assigned name bid))"
proof -
  have sel: "b \<in> set body_list
        \<and> \<not> (keypoint_2d b = None \<or> keypoint_2d b = Some [] \<or>
             (\<exists>kp rest. keypoint_2d b = Some (kp # rest)
                \<and> (isnan ops (fst kp) \<or> isnan ops (snd kp))))"
    if "nearest_loop ops (image_scale s) (click_pos s) body_list (None, None) = Inr (Some b, d)"
    using nearest_loop_selects_valid [OF that]
      body_dist2_None_iff [of ops "image_scale s" "click_pos s" b]
    by simp
  have none: "nearest_loop ops (image_scale s) (click_pos s) body_list (None, None)
            = Inr (None, None)
        \<and> role_map (snd (try_assign_from_click ops s (Some body_list))) = role_map s
        \<and> surgeon_count (snd (try_assign_from_click ops s (Some body_list))) = surgeon_count s
        \<and> assistant_count (snd (try_assign_from_click ops s (Some body_list)))
            = assistant_count s
        \<and> nurse_count (snd (try_assign_from_click ops s (Some body_list))) = nurse_count s
        \<and> (\<forall>name bid. fst (try_assign_from_click ops s (Some body_list)) \<noteq> Assigned name bid)"
    if inv: "\<forall>b\<in>set body_list.
          keypoint_2d b = None \<or> keypoint_2d b = Some [] \<or>
          (\<exists>kp rest. keypoint_2d b = Some (kp # rest)
             \<and> (isnan ops (fst kp) \<or> isnan ops (snd kp)))"
  proof -
    have "\<forall>b\<in>set body_list. body_dist2 ops (image_scale s) (click_pos s) b = None"
      using inv by (simp add: body_dist2_None_iff)
    then have loop: "nearest_loop ops (image_scale s) (click_pos s) body_list (None, None)
            = Inr (None, None)"
      by (rule nearest_loop_all_skipped)
    then show ?thesis
      by (simp add: try_assign_from_click_def)
  qed
  have bound: "\<exists>c\<in>set body_list. body_id c = bid
            \<and> \<not> (keypoint_2d c = None \<or> keypoint_2d c = Some [] \<or>
                 (\<exists>kp rest. keypoint_2d c = Some (kp # rest)
                    \<and> (isnan ops (fst kp) \<or> isnan ops (snd kp))))"
    if a: "fst (try_assign_from_click ops s (Some body_list)) = Assigned name bid"
  proof -
    from a obtain c dd where
      c: "nearest_loop ops (image_scale s) (click_pos s) body_list (None, None)
            = Inr (Some c, dd)" "body_id c = bid"
      by (auto simp: try_assign_from_click_def Let_def
               split: if_splits sum.splits prod.splits option.splits)
    show ?thesis
      using nearest_loop_selects_valid [OF c(1)] c(2)
        body_dist2_None_iff [of ops "image_scale s" "click_pos s" c]
      by auto
  qed
  show ?thesis using sel none bound by blast
qed

theorem invalid_body_never_selected_witness:
  "nearest_loop exact_ops (Some 1, Some 1) (110, 110) (nan_body # two_bodies) (None, None)
     = Inr (Some (at_point 1 100 100), Some 200)
   \<and> at_point 1 100 100 \<in> set (nan_body # two_bodies)
   \<and> keypoint_2d (at_point 1 100 100) = Some [(Some 100, Some 100)]
   \<and> keypoint_2d nan_body = Some [(None, Some 110)]
   \<and> isnan exact_ops None
   \<and> role_map (snd (try_assign_from_click exact_ops
        (run exact_ops unit_manager [Key 115, Click 110 110]) (Some untracked_bodies)))
      = Map.empty
   \<and> surgeon_count (snd (try_assign_from_click exact_ops
        (run exact_ops unit_manager [Key 115, Click 110 110]) (Some untracked_bodies))) = 0
   \<and> fst (try_assign_from_click exact_ops
        (run exact_ops unit_manager [Key 115, Click 110 110]) (Some untracked_bodies))
      = NoValidBody"
proof -
  let ?s = "run exact_ops unit_manager [Key 115, Click 110 110]"
  have s: "image_scale ?s = (Some 1, Some 1)" "click_pos ?s = (110, 110)"
    "role_map ?s = Map.empty" "surgeon_count ?s = 0" "click_pending ?s"
    "current_role ?s = Some ''Surgeon''"
    unfolding ready by (simp_all add: unit_manager_def new_manager_def)
  have inv: "\<forall>b\<in>set untracked_bodies.
          keypoint_2d b = None \<or> keypoint_2d b = Some [] \<or>
          (\<exists>kp rest. keypoint_2d b = Some (kp # rest)
             \<and> (isnan exact_ops (fst kp) \<or> isnan exact_ops (snd kp)))"
    by (simp add: untracked_bodies_def nan_body_def exact_ops_def)
  have loop: "nearest_loop exact_ops (image_scale ?s) (click_pos ?s) (nan_body # two_bodies)
      (None, None) = Inr (Some (at_point 1 100 100), Some 200)"
    unfolding s by (rule loop_nan_body)
  note sel = invalid_body_never_selected
    [of exact_ops ?s "nan_body # two_bodies" "at_point 1 100 100" "Some 200", THEN conjunct1,
     THEN mp, OF loop]
  note none = invalid_body_never_selected
    [of exact_ops ?s untracked_bodies, THEN conjunct2, THEN conjunct2, THEN mp, OF inv]
  have out: "fst (try_assign_from_click exact_ops ?s (Some untracked_bodies)) = NoValidBody"
    using none s(5,6)
    by (simp add: try_assign_from_click_def untracked_bodies_def)
  have c1: "keypoint_2d (at_point 1 100 100) = Some [(Some 100, Some 100)]"
    by (simp add: at_point_def)
  have c2: "keypoint_2d nan_body = Some [(None, Some 110)]"
    by (simp add: nan_body_def)
  have c3: "isnan exact_ops None"
    by (simp add: exact_ops_def)
  have c4: "role_map (snd (try_assign_from_click exact_ops ?s (Some untracked_bodies)))
      = Map.empty"
    using none s(3) by (simp only:)
  have c5: "surgeon_count (snd (try_assign_from_click exact_ops ?s (Some untracked_bodies))) = 0"
    using none s(4) by (simp only:)
  show ?thesis
    using loop_nan_body c1 c2 c3 c4 c5 out sel by (simp only: simp_thms)
qed
subsection \<open>Decimal strings\<close>

lemma digit_eq_iff: "a < 10 \<Longrightarrow> b < 10 \<Longrightarrow> digit a = digit b \<longleftrightarrow> a = b"
  by (simp add: digit_def char_of_eq_iff take_bit_eq_mod)

lemma of_char_digit: "a < 10 \<Longrightarrow> (of_char (digit a) :: nat) = 48 + a"
  by (simp add: digit_def)

lemma digit_not_minus: "a < 10 \<Longrightarrow> digit a \<noteq> CHR ''-''"
proof
  assume a: "a < 10" and eq: "digit a = CHR ''-''"
  have "(of_char (digit a) :: nat) = of_char CHR ''-''"
    by (simp only: eq)
  then show False
    using of_char_digit [OF a] by simp
qed

lemma str_nat_length: "10 \<le> n \<Longrightarrow> 2 \<le> length (str_nat n)"
  by (subst str_nat.simps, subst str_nat.simps) simp

lemma str_nat_small: "n < 10 \<Longrightarrow> str_nat n = [digit n]"
  by (subst str_nat.simps) simp

lemma str_nat_big: "10 \<le> n \<Longrightarrow> str_nat n = str_nat (n div 10) @ [digit (n mod 10)]"
  by (subst str_nat.simps) simp

lemma minus_notin_str_nat: "CHR ''-'' \<notin> set (str_nat n)"
proof (induction n rule: str_nat.induct)
  case (1 n)
  show ?case
  proof (cases "n < 10")
    case True
    then show ?thesis using digit_not_minus [of n] by (simp add: str_nat_small)
  next
    case False
    then show ?thesis
      using 1 digit_not_minus [of "n mod 10"] by (simp add: str_nat_big)
  qed
qed

lemma str_nat_inj: "str_nat n = str_nat m \<Longrightarrow> n = m"
proof (induction n arbitrary: m rule: str_nat.induct)
  case (1 n)
  show ?case
  proof (cases "n < 10")
    case True
    show ?thesis
    proof (cases "m < 10")
      case True
      with \<open>n < 10\<close> 1(2) show ?thesis by (simp add: str_nat_small digit_eq_iff)
    next
      case False
      then have "2 \<le> length (str_nat m)" by (simp add: str_nat_length)
      moreover have "length (str_nat n) = 1" using \<open>n < 10\<close> by (simp add: str_nat_small)
      ultimately show ?thesis using 1(2) by simp
    qed
  next
    case False
    show ?thesis
    proof (cases "m < 10")
      case True
      from False have "2 \<le> length (str_nat n)" by (simp add: str_nat_length)
      moreover have "length (str_nat m) = 1" using True by (simp add: str_nat_small)
      ultimately show ?thesis using 1(2) by simp
    next
      case m: False
      from False m 1(2) have eq: "str_nat (n div 10) = str_nat (m div 10)"
        "digit (n mod 10) = digit (m mod 10)"
        by (simp_all add: str_nat_big)
      from 1(1) [OF False eq(1)] have "n div 10 = m div 10" .
      moreover from eq(2) have "n mod 10 = m mod 10" by (simp add: digit_eq_iff)
      ultimately show ?thesis by (metis div_mult_mod_eq)
    qed
  qed
qed

lemma str_nat_not_Nil: "str_nat n \<noteq> []"
  by (subst str_nat.simps) simp

lemma str_int_inj: "str_int i = str_int j \<Longrightarrow> i = j"
proof -
  assume eq: "str_int i = str_int j"
  have hd_neg: "hd (str_int k) = CHR ''-''" if "k < 0" for k
    using that by (simp add: str_int_def)
  have hd_pos: "hd (str_int k) \<noteq> CHR ''-''" if "\<not> k < 0" for k
    using that minus_notin_str_nat [of "nat k"] str_nat_not_Nil [of "nat k"]
    by (cases "str_nat (nat k)") (auto simp: str_int_def)
  show ?thesis
  proof (cases "i < 0")
    case True
    then have "j < 0" using eq hd_neg [of i] hd_pos [of j] by auto
    with True eq have "nat (- i) = nat (- j)"
      by (auto simp: str_int_def dest: str_nat_inj)
    with True \<open>j < 0\<close> show ?thesis by simp
  next
    case False
    then have "\<not> j < 0" using eq hd_neg [of j] hd_pos [of i] by auto
    with False eq have "nat i = nat j"
      by (auto simp: str_int_def dest: str_nat_inj)
    with False \<open>\<not> j < 0\<close> show ?thesis by simp
  qed
qed

subsection \<open>Counters and issued names\<close>

lemma generate_role_name_category:
  "current_role s = Some ''Surgeon'' \<Longrightarrow>
     generate_role_name s =
       (''Surgeon_'' @ str_int (surgeon_count s + 1), s\<lparr>surgeon_count := surgeon_count s + 1\<rparr>)"
  "current_role s = Some ''Assistant'' \<Longrightarrow>
     generate_role_name s =
       (''Assistant_'' @ str_int (assistant_count s + 1),
        s\<lparr>assistant_count := assistant_count s + 1\<rparr>)"
  "current_role s = Some ''Nurse'' \<Longrightarrow>
     generate_role_name s =
       (''Nurse_'' @ str_int (nurse_count s + 1), s\<lparr>nurse_count := nurse_count s + 1\<rparr>)"
  by (simp_all add: generate_role_name_def)

lemma generate_role_name_fallback:
  "current_role s \<notin> {Some ''Surgeon'', Some ''Assistant'', Some ''Nurse''} \<Longrightarrow>
   snd (generate_role_name s) = s"
  by (simp add: generate_role_name_def split: option.splits)

lemma generate_role_name_mono:
  "surgeon_count s \<le> surgeon_count (snd (generate_role_name s))"
  "assistant_count s \<le> assistant_count (snd (generate_role_name s))"
  "nurse_count s \<le> nurse_count (snd (generate_role_name s))"
  "current_role (snd (generate_role_name s)) = current_role s"
  by (simp_all add: generate_role_name_def split: option.splits)

lemma try_assign_shape:
  "(\<exists>bid. fst (try_assign_from_click ops s bodies) = Assigned (fst (generate_role_name s)) bid
       \<and> click_pending s \<and> current_role s \<noteq> None
       \<and> snd (try_assign_from_click ops s bodies) =
           (snd (generate_role_name s))
             \<lparr>role_map := (role_map (snd (generate_role_name s)))
                 (bid \<mapsto> fst (generate_role_name s)),
              click_pending := False\<rparr>)
   \<or> ((\<forall>name bid. fst (try_assign_from_click ops s bodies) \<noteq> Assigned name bid)
       \<and> (snd (try_assign_from_click ops s bodies) = s
          \<or> snd (try_assign_from_click ops s bodies) = s\<lparr>click_pending := False\<rparr>))"
  by (auto simp: try_assign_from_click_def Let_def
           split: option.splits sum.splits prod.splits)

lemma try_assign_mono:
  "surgeon_count s \<le> surgeon_count (snd (try_assign_from_click ops s bodies))"
  "assistant_count s \<le> assistant_count (snd (try_assign_from_click ops s bodies))"
  "nurse_count s \<le> nurse_count (snd (try_assign_from_click ops s bodies))"
  "current_role (snd (try_assign_from_click ops s bodies)) = current_role s"
  using try_assign_shape [of ops s bodies] generate_role_name_mono [of s]
  by auto

lemma apply_event_mono:
  "surgeon_count s \<le> surgeon_count (apply_event ops s e)"
  "assistant_count s \<le> assistant_count (apply_event ops s e)"
  "nurse_count s \<le> nurse_count (apply_event ops s e)"
  by (cases e; simp add: try_assign_mono set_current_role_from_key_def register_click_def)+

lemma run_mono:
  "surgeon_count s \<le> surgeon_count (run ops s es)
   \<and> assistant_count s \<le> assistant_count (run ops s es)
   \<and> nurse_count s \<le> nurse_count (run ops s es)"
proof (induction es arbitrary: s)
  case Nil
  show ?case by simp
next
  case (Cons e es)
  show ?case
    using Cons [of "apply_event ops s e"] apply_event_mono [of s ops e]
    by simp
qed

lemma apply_event_role:
  "current_role s \<in> {None, Some ''Surgeon'', Some ''Assistant'', Some ''Nurse''} \<Longrightarrow>
   current_role (apply_event ops s e)
     \<in> {None, Some ''Surgeon'', Some ''Assistant'', Some ''Nurse''}"
  by (cases e) (auto simp: try_assign_mono set_current_role_from_key_def register_click_def)

lemma run_role:
  "current_role s \<in> {None, Some ''Surgeon'', Some ''Assistant'', Some ''Nurse''} \<Longrightarrow>
   current_role (run ops s es) \<in> {None, Some ''Surgeon'', Some ''Assistant'', Some ''Nurse''}"
proof (induction es arbitrary: s)
  case Nil
  then show ?case by simp
next
  case (Cons e es)
  show ?case
    using Cons.IH [OF apply_event_role [OF Cons.prems]] by simp
qed


lemma issued_step:
  assumes "current_role s \<in> {None, Some ''Surgeon'', Some ''Assistant'', Some ''Nurse''}"
  shows "issued ops s e = []
    \<or> (issued ops s e = [''Surgeon_'' @ str_int (surgeon_count s + 1)]
        \<and> surgeon_count (apply_event ops s e) = surgeon_count s + 1
        \<and> assistant_count (apply_event ops s e) = assistant_count s
        \<and> nurse_count (apply_event ops s e) = nurse_count s)
    \<or> (issued ops s e = [''Assistant_'' @ str_int (assistant_count s + 1)]
        \<and> surgeon_count (apply_event ops s e) = surgeon_count s
        \<and> assistant_count (apply_event ops s e) = assistant_count s + 1
        \<and> nurse_count (apply_event ops s e) = nurse_count s)
    \<or> (issued ops s e = [''Nurse_'' @ str_int (nurse_count s + 1)]
        \<and> surgeon_count (apply_event ops s e) = surgeon_count s
        \<and> assistant_count (apply_event ops s e) = assistant_count s
        \<and> nurse_count (apply_event ops s e) = nurse_count s + 1)"
proof (cases e)
  case (Key k)
  then show ?thesis by simp
next
  case (Click x y)
  then show ?thesis by simp
next
  case (Frame bodies)
  consider (assigned) bid where
      "fst (try_assign_from_click ops s bodies) = Assigned (fst (generate_role_name s)) bid"
      "current_role s \<noteq> None"
      "snd (try_assign_from_click ops s bodies) =
           (snd (generate_role_name s))
             \<lparr>role_map := (role_map (snd (generate_role_name s)))
                 (bid \<mapsto> fst (generate_role_name s)),
              click_pending := False\<rparr>"
    | (nothing) "\<forall>name bid. fst (try_assign_from_click ops s bodies) \<noteq> Assigned name bid"
    using try_assign_shape [of ops s bodies] by blast
  then show ?thesis
  proof cases
    case assigned
    from assms assigned(2) consider "current_role s = Some ''Surgeon''"
      | "current_role s = Some ''Assistant''" | "current_role s = Some ''Nurse''"
      by auto
    then show ?thesis
      using Frame assigned(1,3)
      by cases (simp_all add: generate_role_name_category)
  next
    case nothing
    then have "issued ops s e = []"
      using Frame by (cases "fst (try_assign_from_click ops s bodies)") simp_all
    then show ?thesis by simp
  qed
qed

lemma issued_names_fresh:
  assumes "current_role s \<in> {None, Some ''Surgeon'', Some ''Assistant'', Some ''Nurse''}"
  shows "distinct (issued_names ops s es)
    \<and> (\<forall>l\<in>set (issued_names ops s es).
          (\<exists>n. surgeon_count s < n \<and> l = ''Surgeon_'' @ str_int n)
        \<or> (\<exists>n. assistant_count s < n \<and> l = ''Assistant_'' @ str_int n)
        \<or> (\<exists>n. nurse_count s < n \<and> l = ''Nurse_'' @ str_int n))"
  using assms
proof (induction es arbitrary: s)
  case Nil
  show ?case by simp
next
  case (Cons e es)
  let ?t = "apply_event ops s e"
  let ?rest = "issued_names ops ?t es"
  have ih: "distinct ?rest"
    "\<forall>l\<in>set ?rest.
          (\<exists>n. surgeon_count ?t < n \<and> l = ''Surgeon_'' @ str_int n)
        \<or> (\<exists>n. assistant_count ?t < n \<and> l = ''Assistant_'' @ str_int n)
        \<or> (\<exists>n. nurse_count ?t < n \<and> l = ''Nurse_'' @ str_int n)"
    using Cons.IH [OF apply_event_role [OF Cons.prems]] by simp_all
  have above: "\<forall>l\<in>set ?rest.
          (\<exists>n. surgeon_count s < n \<and> l = ''Surgeon_'' @ str_int n)
        \<or> (\<exists>n. assistant_count s < n \<and> l = ''Assistant_'' @ str_int n)
        \<or> (\<exists>n. nurse_count s < n \<and> l = ''Nurse_'' @ str_int n)"
  proof
    fix l assume "l \<in> set ?rest"
    then have "(\<exists>n. surgeon_count ?t < n \<and> l = ''Surgeon_'' @ str_int n)
        \<or> (\<exists>n. assistant_count ?t < n \<and> l = ''Assistant_'' @ str_int n)
        \<or> (\<exists>n. nurse_count ?t < n \<and> l = ''Nurse_'' @ str_int n)"
      using ih(2) by blast
    then show "(\<exists>n. surgeon_count s < n \<and> l = ''Surgeon_'' @ str_int n)
        \<or> (\<exists>n. assistant_count s < n \<and> l = ''Assistant_'' @ str_int n)
        \<or> (\<exists>n. nurse_count s < n \<and> l = ''Nurse_'' @ str_int n)"
      using apply_event_mono [of s ops e] by (elim disjE exE conjE) force+
  qed
  have surgeon_new: "''Surgeon_'' @ str_int (surgeon_count ?t) \<notin> set ?rest"
  proof
    assume "''Surgeon_'' @ str_int (surgeon_count ?t) \<in> set ?rest"
    then obtain n where "surgeon_count ?t < n" "str_int (surgeon_count ?t) = str_int n"
      using ih(2) by fastforce
    then show False using str_int_inj by blast
  qed
  have assistant_new: "''Assistant_'' @ str_int (assistant_count ?t) \<notin> set ?rest"
  proof
    assume "''Assistant_'' @ str_int (assistant_count ?t) \<in> set ?rest"
    then obtain n where "assistant_count ?t < n" "str_int (assistant_count ?t) = str_int n"
      using ih(2) by fastforce
    then show False using str_int_inj by blast
  qed
  have nurse_new: "''Nurse_'' @ str_int (nurse_count ?t) \<notin> set ?rest"
  proof
    assume "''Nurse_'' @ str_int (nurse_count ?t) \<in> set ?rest"
    then obtain n where "nurse_count ?t < n" "str_int (nurse_count ?t) = str_int n"
      using ih(2) by fastforce
    then show False using str_int_inj by blast
  qed
  from issued_step [OF Cons.prems, of ops e]
  show ?case
  proof (elim disjE conjE)
    assume "issued ops s e = []"
    then show ?thesis using ih(1) above by simp
  next
    assume a: "issued ops s e = [''Surgeon_'' @ str_int (surgeon_count s + 1)]"
      "surgeon_count ?t = surgeon_count s + 1"
    have "\<exists>n. surgeon_count s < n
        \<and> ''Surgeon_'' @ str_int (surgeon_count s + 1) = ''Surgeon_'' @ str_int n"
      by (rule exI [of _ "surgeon_count s + 1"]) simp
    then show ?thesis
      using a ih(1) above surgeon_new by simp
  next
    assume a: "issued ops s e = [''Assistant_'' @ str_int (assistant_count s + 1)]"
      "assistant_count ?t = assistant_count s + 1"
    have "\<exists>n. assistant_count s < n
        \<and> ''Assistant_'' @ str_int (assistant_count s + 1) = ''Assistant_'' @ str_int n"
      by (rule exI [of _ "assistant_count s + 1"]) simp
    then show ?thesis
      using a ih(1) above assistant_new by simp
  next
    assume a: "issued ops s e = [''Nurse_'' @ str_int (nurse_count s + 1)]"
      "nurse_count ?t = nurse_count s + 1"
    have "\<exists>n. nurse_count s < n
        \<and> ''Nurse_'' @ str_int (nurse_count s + 1) = ''Nurse_'' @ str_int n"
      by (rule exI [of _ "nurse_count s + 1"]) simp
    then show ?thesis
      using a ih(1) above nurse_new by simp
  qed
qed

text \<open>
  C2. A call of \<open>generate_role_name\<close> with a category selected adds exactly one to the
  counter of that category, leaves the other counters alone and returns the category, an
  underscore and the new value of the counter in decimal. No call of \<open>generate_role_name\<close>
  and no sequence of key presses, clicks and frames lowers a counter, rebinding included.
  From a manager whose current role is none or one of the three categories, the names
  issued during any sequence of calls are pairwise distinct.
\<close>

theorem role_names_counted_and_unique:
  "(current_role s = Some ''Surgeon'' \<longrightarrow>
      generate_role_name s =
        (''Surgeon_'' @ str_int (surgeon_count s + 1), s\<lparr>surgeon_count := surgeon_count s + 1\<rparr>))
   \<and> (current_role s = Some ''Assistant'' \<longrightarrow>
      generate_role_name s =
        (''Assistant_'' @ str_int (assistant_count s + 1),
         s\<lparr>assistant_count := assistant_count s + 1\<rparr>))
   \<and> (current_role s = Some ''Nurse'' \<longrightarrow>
      generate_role_name s =
        (''Nurse_'' @ str_int (nurse_count s + 1), s\<lparr>nurse_count := nurse_count s + 1\<rparr>))
   \<and> surgeon_count s \<le> surgeon_count (snd (generate_role_name s))
   \<and> assistant_count s \<le> assistant_count (snd (generate_role_name s))
   \<and> nurse_count s \<le> nurse_count (snd (generate_role_name s))
   \<and> surgeon_count s \<le> surgeon_count (run ops s es)
   \<and> assistant_count s \<le> assistant_count (run ops s es)
   \<and> nurse_count s \<le> nurse_count (run ops s es)
   \<and> (current_role s \<in> {None, Some ''Surgeon'', Some ''Assistant'', Some ''Nurse''} \<longrightarrow>
        distinct (issued_names ops s es))"
  using generate_role_name_category [of s] generate_role_name_mono(1,2,3) [of s]
    run_mono [of s ops es] issued_names_fresh [of s ops es]
  by blast

theorem role_names_counted_and_unique_witness:
  "current_role (run exact_ops unit_manager [Key 115, Click 110 110]) = Some ''Surgeon''
   \<and> generate_role_name (run exact_ops unit_manager [Key 115, Click 110 110]) =
       (''Surgeon_1'', (run exact_ops unit_manager [Key 115, Click 110 110])\<lparr>surgeon_count := 1\<rparr>)
   \<and> current_role unit_manager = None
   \<and> issued_names exact_ops unit_manager three_bindings
       = [''Surgeon_1'', ''Surgeon_2'', ''Assistant_1'']
   \<and> distinct (issued_names exact_ops unit_manager three_bindings)
   \<and> surgeon_count (run exact_ops unit_manager three_bindings) = 2
   \<and> surgeon_count unit_manager \<le> surgeon_count (run exact_ops unit_manager three_bindings)"
proof -
  let ?s = "run exact_ops unit_manager [Key 115, Click 110 110]"
  have a: "current_role ?s = Some ''Surgeon''" "surgeon_count ?s = 0"
    unfolding ready by (simp_all add: unit_manager_def new_manager_def)
  have b: "current_role unit_manager = None"
    by (simp add: unit_manager_def new_manager_def)
  note c2 = role_names_counted_and_unique [of ?s exact_ops "[]"]
  note c2' = role_names_counted_and_unique [of unit_manager exact_ops three_bindings]
  have gen: "generate_role_name ?s = (''Surgeon_1'', ?s\<lparr>surgeon_count := 1\<rparr>)"
    using c2 a by (simp add: str_int_1)
  have dist: "distinct (issued_names exact_ops unit_manager three_bindings)"
    using c2' b by simp
  have mono: "surgeon_count unit_manager \<le> surgeon_count (run exact_ops unit_manager three_bindings)"
    using c2' by (simp only:)
  show ?thesis
    using a(1) gen b names_three_bindings dist state_three_bindings(3) mono
    by (simp only: simp_thms)
qed

text \<open>
  C10. After any sequence of key presses, clicks and frames on a freshly constructed
  manager, \<open>current_role\<close> is none or one of Surgeon, Assistant and Nurse. So whenever
  \<open>try_assign_from_click\<close> then assigns a name, a category is selected, the name is the one
  \<open>generate_role_name\<close> returns, that call does not take the fallback branch (it changes
  the manager), and exactly one of the three counters goes up by one while the two others
  keep their values.
\<close>

theorem current_role_always_valid:
  "current_role (run ops (new_manager scale) es)
      \<in> {None, Some ''Surgeon'', Some ''Assistant'', Some ''Nurse''}
   \<and> (fst (try_assign_from_click ops (run ops (new_manager scale) es) bodies)
        = Assigned name bid \<longrightarrow>
        current_role (run ops (new_manager scale) es)
          \<in> {Some ''Surgeon'', Some ''Assistant'', Some ''Nurse''}
        \<and> name = fst (generate_role_name (run ops (new_manager scale) es))
        \<and> snd (generate_role_name (run ops (new_manager scale) es))
            \<noteq> run ops (new_manager scale) es
        \<and> (surgeon_count (snd (try_assign_from_click ops (run ops (new_manager scale) es) bodies))
              = surgeon_count (run ops (new_manager scale) es) + 1
            \<and> assistant_count (snd (try_assign_from_click ops (run ops (new_manager scale) es) bodies))
              = assistant_count (run ops (new_manager scale) es)
            \<and> nurse_count (snd (try_assign_from_click ops (run ops (new_manager scale) es) bodies))
              = nurse_count (run ops (new_manager scale) es)
          \<or> surgeon_count (snd (try_assign_from_click ops (run ops (new_manager scale) es) bodies))
              = surgeon_count (run ops (new_manager scale) es)
            \<and> assistant_count (snd (try_assign_from_click ops (run ops (new_manager scale) es) bodies))
              = assistant_count (run ops (new_manager scale) es) + 1
            \<and> nurse_count (snd (try_assign_from_click ops (run ops (new_manager scale) es) bodies))
              = nurse_count (run ops (new_manager scale) es)
          \<or> surgeon_count (snd (try_assign_from_click ops (run ops (new_manager scale) es) bodies))
              = surgeon_count (run ops (new_manager scale) es)
            \<and> assistant_count (snd (try_assign_from_click ops (run ops (new_manager scale) es) bodies))
              = assistant_count (run ops (new_manager scale) es)
            \<and> nurse_count (snd (try_assign_from_click ops (run ops (new_manager scale) es) bodies))
              = nurse_count (run ops (new_manager scale) es) + 1))"
proof -
  let ?s = "run ops (new_manager scale) es"
  let ?r = "try_assign_from_click ops ?s bodies"
  have "current_role (new_manager scale)
      \<in> {None, Some ''Surgeon'', Some ''Assistant'', Some ''Nurse''}"
    by (simp add: new_manager_def)
  then have valid: "current_role ?s \<in> {None, Some ''Surgeon'', Some ''Assistant'', Some ''Nurse''}"
    by (rule run_role)
  have assigned: "current_role ?s \<in> {Some ''Surgeon'', Some ''Assistant'', Some ''Nurse''}
        \<and> name = fst (generate_role_name ?s)
        \<and> snd (generate_role_name ?s) \<noteq> ?s
        \<and> (surgeon_count (snd ?r) = surgeon_count ?s + 1
            \<and> assistant_count (snd ?r) = assistant_count ?s
            \<and> nurse_count (snd ?r) = nurse_count ?s
          \<or> surgeon_count (snd ?r) = surgeon_count ?s
            \<and> assistant_count (snd ?r) = assistant_count ?s + 1
            \<and> nurse_count (snd ?r) = nurse_count ?s
          \<or> surgeon_count (snd ?r) = surgeon_count ?s
            \<and> assistant_count (snd ?r) = assistant_count ?s
            \<and> nurse_count (snd ?r) = nurse_count ?s + 1)"
    if a: "fst ?r = Assigned name bid"
  proof -
    from try_assign_shape [of ops ?s bodies] a
    have n: "name = fst (generate_role_name ?s)" and role: "current_role ?s \<noteq> None"
      and s': "snd ?r = (snd (generate_role_name ?s))
             \<lparr>role_map := (role_map (snd (generate_role_name ?s)))
                 (bid \<mapsto> fst (generate_role_name ?s)),
              click_pending := False\<rparr>"
      by auto
    from valid role consider "current_role ?s = Some ''Surgeon''"
      | "current_role ?s = Some ''Assistant''" | "current_role ?s = Some ''Nurse''"
      by auto
    then show ?thesis
    proof cases
      case 1
      have "surgeon_count (snd (generate_role_name ?s)) \<noteq> surgeon_count ?s"
        by (simp add: generate_role_name_category(1) [OF 1])
      then have "snd (generate_role_name ?s) \<noteq> ?s" by auto
      then show ?thesis
        using n s' 1 by (simp add: generate_role_name_category(1) [OF 1])
    next
      case 2
      have "assistant_count (snd (generate_role_name ?s)) \<noteq> assistant_count ?s"
        by (simp add: generate_role_name_category(2) [OF 2])
      then have "snd (generate_role_name ?s) \<noteq> ?s" by auto
      then show ?thesis
        using n s' 2 by (simp add: generate_role_name_category(2) [OF 2])
    next
      case 3
      have "nurse_count (snd (generate_role_name ?s)) \<noteq> nurse_count ?s"
        by (simp add: generate_role_name_category(3) [OF 3])
      then have "snd (generate_role_name ?s) \<noteq> ?s" by auto
      then show ?thesis
        using n s' 3 by (simp add: generate_role_name_category(3) [OF 3])
    qed
  qed
  show ?thesis using valid assigned by blast
qed

theorem current_role_always_valid_witness:
  "current_role (run exact_ops (new_manager (Some 1, Some 1)) [Key 115, Click 110 110])
     = Some ''Surgeon''
   \<and> fst (try_assign_from_click exact_ops
        (run exact_ops (new_manager (Some 1, Some 1)) [Key 115, Click 110 110]) (Some two_bodies))
     = Assigned ''Surgeon_1'' 1
   \<and> surgeon_count (snd (try_assign_from_click exact_ops
        (run exact_ops (new_manager (Some 1, Some 1)) [Key 115, Click 110 110]) (Some two_bodies)))
     = surgeon_count (run exact_ops (new_manager (Some 1, Some 1)) [Key 115, Click 110 110]) + 1
   \<and> current_role (run exact_ops (new_manager (Some 1, Some 1)) [Key 27, Key 120, Click 3 4])
     = None"
proof -
  let ?s = "run exact_ops (new_manager (Some 1, Some 1)) [Key 115, Click 110 110]"
  have out: "fst (try_assign_from_click exact_ops ?s (Some two_bodies)) = Assigned ''Surgeon_1'' 1"
    using try_assign_two_bodies by (simp add: unit_manager_def)
  have role: "current_role ?s = Some ''Surgeon''"
    using ready by (simp add: unit_manager_def)
  have none: "current_role (run exact_ops (new_manager (Some 1, Some 1)) [Key 27, Key 120, Click 3 4])
     = None"
    by (simp add: set_current_role_from_key_def register_click_def)
  note c10 = current_role_always_valid
    [of exact_ops "(Some 1, Some 1)" "[Key 115, Click 110 110]" "Some two_bodies"
        "''Surgeon_1''" 1, THEN conjunct2, THEN mp, OF out]
  have "surgeon_count (snd (try_assign_from_click exact_ops ?s (Some two_bodies)))
     = surgeon_count ?s + 1"
    using c10 try_assign_two_bodies ready
    by (simp add: unit_manager_def new_manager_def)
  then show ?thesis
    using role out none by (simp only: simp_thms)
qed

end
